theory Spec2Isabelle
  imports Complex_Main
begin

section \<open>Data model\<close>

text \<open>
  A shallow embedding of the SmartLarva Edge controller (\<^verbatim>\<open>main.py\<close>), its HTTP client
  (\<^verbatim>\<open>sync/client.py\<close>) and its camera and sensor backends. Each of the four periodic
  loops is modelled by the body of one iteration (a tick), a function from the controller
  state to the controller state; what the outside world does during the tick (the clock,
  the hardware, the file system's failures, the server's replies) is an argument of the
  tick. The ticks of the four threads are taken one after another, each as a whole.

  Timestamps are integers (seconds since the epoch) standing for the ISO-8601 strings of
  the source; file contents are byte strings; the flags of a row are the integers 0 and 1
  of the source. Floating-point sensor values are real numbers, and nothing is computed
  with them.
\<close>

type_synonym timestamp = int
type_synonym bytes = string
type_synonym filesystem = "string \<rightharpoonup> bytes"

datatype error =
  NotImplementedError | RuntimeError | OSError | IntegrityError | ValueError

text \<open>\<^verbatim>\<open>camera/base.py\<close>: the dataclass \<^verbatim>\<open>CapturedImage\<close>.\<close>

record captured_image =
  image_index :: int
  local_path :: string
  size_bytes :: int
  sha256_hex :: string
  width_px :: int
  height_px :: int
  format :: string
  captured_at :: timestamp

text \<open>
  A row of the image table, as \<^verbatim>\<open>capture_loop\<close> builds it (\<^verbatim>\<open>CapturedImageRecord\<close>):
  the fields of the artifact and the columns the store adds. \<^verbatim>\<open>id\<close> is \<open>None\<close> in the
  record handed to \<^verbatim>\<open>insert_image\<close> and a number in every stored row.
\<close>

record image_row = captured_image +
  img_id :: "nat option"
  event_local_id :: int
  metadata_uploaded :: nat
  uploaded :: nat
  local_exists :: nat
  corrupted :: nat

text \<open>\<^verbatim>\<open>CaptureEventRecord\<close>, a row of \<^verbatim>\<open>capture_events_local\<close>.\<close>

record event_row =
  event_id :: int
  ev_crate_id :: int
  camera_name :: string
  ev_captured_at :: timestamp
  burst_size :: int
  ev_uploaded :: nat

text \<open>\<^verbatim>\<open>sensors/mock_sensors.py\<close>: the dataclass \<^verbatim>\<open>SensorReading\<close>.\<close>

record sensor_reading =
  reading_id :: int
  crate_id :: int
  recorded_at :: timestamp
  temperature_c :: "real option"
  humidity_pct :: "real option"

text \<open>\<^verbatim>\<open>SensorReadingRecord\<close>, a row of \<^verbatim>\<open>sensor_readings_local\<close>.\<close>

record reading_row = sensor_reading +
  rd_uploaded :: nat

text \<open>
  The local store: the three tables in insertion order and the key-value table of
  process state.
\<close>

record database =
  capture_events_local :: "event_row list"
  captured_images_local :: "image_row list"
  sensor_readings_local :: "reading_row list"
  process_state :: "string \<rightharpoonup> string"

definition empty_database :: database where
  "empty_database =
     \<lparr>capture_events_local = [], captured_images_local = [],
      sensor_readings_local = [], process_state = Map.empty\<rparr>"

section \<open>The local store\<close>

text \<open>
  The module \<^verbatim>\<open>db.py\<close> (class \<^verbatim>\<open>Database\<close>) is imported by \<^verbatim>\<open>main.py\<close> but is not among
  the sources. Its operations are modelled from the specification, section 4.1, and from
  the way \<^verbatim>\<open>main.py\<close> calls them.
\<close>

definition max_id :: "int list \<Rightarrow> int option" where
  \<comment> \<open>SQL \<^verbatim>\<open>MAX(column)\<close>: \<^verbatim>\<open>NULL\<close> on an empty table.\<close>
  "max_id xs = (case xs of [] \<Rightarrow> None | x # ys \<Rightarrow> Some (fold max ys x))"

definition next_img_id :: "image_row list \<Rightarrow> nat" where
  "next_img_id rows = Suc (fold max (map (\<lambda>r. case img_id r of None \<Rightarrow> 0 | Some i \<Rightarrow> i) rows) 0)"

definition image_key :: "image_row \<Rightarrow> int \<times> int" where
  "image_key r = (event_local_id r, image_index r)"

text \<open>
  Modelled from the spec: \<^verbatim>\<open>Database.insert_event\<close>, absent from the sources. ``Append-only
  inserts; fail with IntegrityError on duplicate (event_id, image_index) or duplicate
  reading_id'': no failure is named for an event row.
\<close>

definition insert_event :: "event_row \<Rightarrow> database \<Rightarrow> database" where
  "insert_event e d = d\<lparr>capture_events_local := capture_events_local d @ [e]\<rparr>"

text \<open>
  Modelled from the spec: \<^verbatim>\<open>Database.insert_image\<close>, absent from the sources. An
  append that fails with \<open>IntegrityError\<close> on a duplicate \<open>(event_id, image_index)\<close>. The
  store gives a row whose \<^verbatim>\<open>id\<close> is \<open>None\<close> the next free identifier (one more than the
  largest in the table); a given identifier must be new.
\<close>

definition insert_image :: "image_row \<Rightarrow> database \<Rightarrow> error + database" where
  "insert_image r d =
     (let rows = captured_images_local d in
      if image_key r \<in> set (map image_key rows) then Inl IntegrityError
      else (case img_id r of
              None \<Rightarrow>
                Inr (d\<lparr>captured_images_local := rows @ [r\<lparr>img_id := Some (next_img_id rows)\<rparr>]\<rparr>)
            | Some i \<Rightarrow>
                if Some i \<in> set (map img_id rows) then Inl IntegrityError
                else Inr (d\<lparr>captured_images_local := rows @ [r]\<rparr>)))"

text \<open>
  Modelled from the spec: \<^verbatim>\<open>Database.insert_sensor_reading\<close>, absent from the sources. An
  append that fails with \<open>IntegrityError\<close> on a duplicate \<open>reading_id\<close>.
\<close>

definition insert_sensor_reading :: "reading_row \<Rightarrow> database \<Rightarrow> error + database" where
  "insert_sensor_reading r d =
     (if reading_id r \<in> set (map reading_id (sensor_readings_local d)) then Inl IntegrityError
      else Inr (d\<lparr>sensor_readings_local := sensor_readings_local d @ [r]\<rparr>))"

text \<open>
  Modelled from the spec: \<^verbatim>\<open>Database.get_unsynced_events\<close>, absent from the sources. ``Rows
  where the relevant upload flag is unset, oldest-first, bounded by limit''; oldest-first
  is the order of insertion.
\<close>

definition get_unsynced_events :: "int \<Rightarrow> database \<Rightarrow> event_row list" where
  "get_unsynced_events limit d =
     take (nat limit) (filter (\<lambda>e. ev_uploaded e = 0) (capture_events_local d))"

text \<open>
  Modelled from the spec: \<^verbatim>\<open>Database.get_images_for_event\<close>, absent from the sources: the
  images of one event, joined into the event's transfer record.
\<close>

definition get_images_for_event :: "int \<Rightarrow> database \<Rightarrow> image_row list" where
  "get_images_for_event eid d =
     filter (\<lambda>r. event_local_id r = eid) (captured_images_local d)"

text \<open>
  Modelled from the spec: \<^verbatim>\<open>Database.get_sensor_readings\<close>, absent from the sources: the
  readings whose upload flag has the given value, oldest-first, bounded by limit.
\<close>

definition get_sensor_readings :: "nat \<Rightarrow> int \<Rightarrow> database \<Rightarrow> reading_row list" where
  "get_sensor_readings u limit d =
     take (nat limit) (filter (\<lambda>r. rd_uploaded r = u) (sensor_readings_local d))"

text \<open>
  Modelled from the spec: \<^verbatim>\<open>Database.get_unsynced_images\<close>, absent from the sources, the
  binary-sync query. ``Images whose metadata is uploaded but binary payload is not''
  (4.3), and a corrupted image ``is never again selected by the binary-sync query'' (8);
  oldest-first, bounded by limit.
\<close>

definition get_unsynced_images :: "int \<Rightarrow> database \<Rightarrow> image_row list" where
  "get_unsynced_images limit d =
     take (nat limit)
       (filter (\<lambda>r. metadata_uploaded r = 1 \<and> uploaded r = 0 \<and> corrupted r = 0)
          (captured_images_local d))"

text \<open>
  Modelled from the spec: the flag transitions of \<^verbatim>\<open>Database\<close>, absent from the sources.
  ``Idempotent flag transitions; calling twice on an already-transitioned row is a no-op,
  not an error.'' Each sets one flag of the rows its arguments name and nothing else.
\<close>

definition mark_event_uploaded :: "int \<Rightarrow> database \<Rightarrow> database" where
  "mark_event_uploaded eid d =
     d\<lparr>capture_events_local :=
         map (\<lambda>e. if event_id e = eid then e\<lparr>ev_uploaded := 1\<rparr> else e) (capture_events_local d)\<rparr>"

definition mark_image_metadata_uploaded :: "int \<Rightarrow> database \<Rightarrow> database" where
  "mark_image_metadata_uploaded eid d =
     d\<lparr>captured_images_local :=
         map (\<lambda>r. if event_local_id r = eid then r\<lparr>metadata_uploaded := 1\<rparr> else r)
           (captured_images_local d)\<rparr>"

definition mark_image_uploaded :: "int \<Rightarrow> int \<Rightarrow> database \<Rightarrow> database" where
  "mark_image_uploaded eid idx d =
     d\<lparr>captured_images_local :=
         map (\<lambda>r. if image_key r = (eid, idx) then r\<lparr>uploaded := 1\<rparr> else r)
           (captured_images_local d)\<rparr>"

definition mark_image_corrupted :: "nat option \<Rightarrow> database \<Rightarrow> database" where
  "mark_image_corrupted i d =
     d\<lparr>captured_images_local :=
         map (\<lambda>r. if i \<noteq> None \<and> img_id r = i then r\<lparr>corrupted := 1\<rparr> else r)
           (captured_images_local d)\<rparr>"

definition mark_image_deleted :: "nat option \<Rightarrow> database \<Rightarrow> database" where
  "mark_image_deleted i d =
     d\<lparr>captured_images_local :=
         map (\<lambda>r. if i \<noteq> None \<and> img_id r = i then r\<lparr>local_exists := 0\<rparr> else r)
           (captured_images_local d)\<rparr>"

definition mark_reading_uploaded :: "int \<Rightarrow> database \<Rightarrow> database" where
  "mark_reading_uploaded rid d =
     d\<lparr>sensor_readings_local :=
         map (\<lambda>r. if reading_id r = rid then r\<lparr>rd_uploaded := 1\<rparr> else r)
           (sensor_readings_local d)\<rparr>"

text \<open>
  Modelled from the spec: \<^verbatim>\<open>Database.get_cleanup_candidates\<close>, absent from the sources.
  ``Images where local_exists=1 AND owning event id \<open>\<le>\<close> safeDeleteEventId AND capture
  timestamp older than retentionDays. Ordering: oldest capture timestamp first.'' The
  store reads the clock; here it is the argument \<open>now\<close>.
\<close>

definition seconds_per_day :: int where
  "seconds_per_day = 86400"

definition get_cleanup_candidates ::
  "timestamp \<Rightarrow> int \<Rightarrow> int \<Rightarrow> int \<Rightarrow> database \<Rightarrow> image_row list" where
  "get_cleanup_candidates now safe_delete_event_id retention_days limit d =
     take (nat limit)
       (sort_key captured_at
          (filter (\<lambda>r. local_exists r = 1 \<and> event_local_id r \<le> safe_delete_event_id
                       \<and> captured_at r < now - retention_days * seconds_per_day)
             (captured_images_local d)))"

text \<open>
  Modelled from the spec: \<^verbatim>\<open>Database.get_state_value\<close> and \<^verbatim>\<open>set_state_value\<close>, absent
  from the sources. ``Generic scalar persistence; getStateValue returns absent-marker if
  unset (distinct from value "0").''
\<close>

definition get_state_value :: "string \<Rightarrow> database \<Rightarrow> string option" where
  "get_state_value k d = process_state d k"

definition set_state_value :: "string \<Rightarrow> string \<Rightarrow> database \<Rightarrow> database" where
  "set_state_value k v d = d\<lparr>process_state := (process_state d)(k \<mapsto> v)\<rparr>"

section \<open>Python's conversions between integers and strings\<close>

fun str_nat :: "nat \<Rightarrow> string" where
  "str_nat n =
     (if n < 10 then [char_of (48 + n)]
      else str_nat (n div 10) @ [char_of (48 + n mod 10)])"

declare str_nat.simps [simp del]

definition str_int :: "int \<Rightarrow> string" where
  \<comment> \<open>\<^verbatim>\<open>str(n)\<close> of a Python integer.\<close>
  "str_int n = (if n < 0 then CHR ''-'' # str_nat (nat (- n)) else str_nat (nat n))"

definition zero_pad :: "nat \<Rightarrow> string \<Rightarrow> string" where
  "zero_pad w s = replicate (w - length s) CHR ''0'' @ s"

definition fmt_0d :: "nat \<Rightarrow> int \<Rightarrow> string" where
  \<comment> \<open>The format \<^verbatim>\<open>{n:0wd}\<close>: the sign counts in the width.\<close>
  "fmt_0d w n =
     (if n < 0 then CHR ''-'' # zero_pad (w - 1) (str_nat (nat (- n)))
      else zero_pad w (str_nat (nat n)))"

definition digit_val :: "char \<Rightarrow> nat option" where
  "digit_val c =
     (if c \<in> set ''0123456789'' then Some (of_char c - 48) else None)"

definition is_space :: "char \<Rightarrow> bool" where
  "is_space c \<longleftrightarrow> (of_char c :: nat) \<in> {9, 10, 11, 12, 13, 28, 29, 30, 31, 32}"

definition strip :: "string \<Rightarrow> string" where
  "strip s = rev (dropWhile is_space (rev (dropWhile is_space s)))"

fun digits_acc :: "nat \<Rightarrow> string \<Rightarrow> nat option" where
  "digits_acc acc [] = Some acc"
| "digits_acc acc [c] = map_option (\<lambda>v. acc * 10 + v) (digit_val c)"
| "digits_acc acc (c # c' # cs) =
     (if c = CHR ''_'' then
        (case digit_val c' of None \<Rightarrow> None | Some v \<Rightarrow> digits_acc (acc * 10 + v) cs)
      else (case digit_val c of None \<Rightarrow> None | Some v \<Rightarrow> digits_acc (acc * 10 + v) (c' # cs)))"

definition unsigned_int :: "string \<Rightarrow> nat option" where
  "unsigned_int s =
     (case s of [] \<Rightarrow> None
      | c # cs \<Rightarrow> (case digit_val c of None \<Rightarrow> None | Some v \<Rightarrow> digits_acc v cs))"

definition py_int :: "string \<Rightarrow> int option" where
  \<comment> \<open>\<^verbatim>\<open>int(s)\<close> on an ASCII string: \<open>None\<close> where Python raises \<open>ValueError\<close>.\<close>
  "py_int s =
     (case strip s of [] \<Rightarrow> None
      | c # cs \<Rightarrow>
          if c = CHR ''-'' then map_option (\<lambda>n. - int n) (unsigned_int cs)
          else if c = CHR ''+'' then map_option int (unsigned_int cs)
          else map_option int (unsigned_int (c # cs)))"

section \<open>The sync client\<close>

text \<open>
  \<^verbatim>\<open>sync/client.py\<close>. The server and the network are the environment: for each request
  the tick is told what \<^verbatim>\<open>requests\<close> does with it, raise (a connection error, a timeout)
  or return a response with a status code and a body. A JSON body is an object of scalar
  values, some other JSON value, or not JSON at all.
\<close>

datatype json_value = JNull | JBool bool | JInt int | JStr string

datatype json_body = NotJson | NotAnObject | JObject "string \<rightharpoonup> json_value"

datatype http_result = ConnectionError | Response nat json_body

type_synonym image_meta = "int \<times> int \<times> string \<times> int \<times> int \<times> string"

datatype payload =
  Event_meta string int int string timestamp int "image_meta list"
| Reading_meta string int int timestamp "real option" "real option"

record uplink =
  heartbeat_reply :: "int \<Rightarrow> http_result"
  metadata_reply :: "payload list \<Rightarrow> http_result"
  image_reply :: "int \<Rightarrow> int \<Rightarrow> string \<Rightarrow> bytes \<Rightarrow> http_result"

definition raise_for_status :: "nat \<Rightarrow> bool" where
  \<comment> \<open>True when \<^verbatim>\<open>response.raise_for_status()\<close> raises.\<close>
  "raise_for_status st \<longleftrightarrow> 400 \<le> st \<and> st < 600"

definition watermark_key :: string where
  "watermark_key = ''delete_safe_up_to_event_id''"

definition send_heartbeat :: "uplink \<Rightarrow> int \<Rightarrow> json_value option" where
  "send_heartbeat net last_event_id =
     (case heartbeat_reply net last_event_id of
        ConnectionError \<Rightarrow> None
      | Response st body \<Rightarrow>
          if raise_for_status st then None
          else (case body of
                  NotJson \<Rightarrow> None
                | NotAnObject \<Rightarrow> None
                | JObject data \<Rightarrow>
                    (case data watermark_key of
                       None \<Rightarrow> None
                     | Some JNull \<Rightarrow> None
                     | Some v \<Rightarrow> Some v)))"

definition upload_metadata :: "uplink \<Rightarrow> payload list \<Rightarrow> bool" where
  "upload_metadata net events_payload =
     (case metadata_reply net events_payload of
        ConnectionError \<Rightarrow> False
      | Response st body \<Rightarrow> \<not> raise_for_status st)"

definition upload_image ::
  "uplink \<Rightarrow> filesystem \<Rightarrow> int \<Rightarrow> int \<Rightarrow> string \<Rightarrow> string \<Rightarrow> bool" where
  "upload_image net fs eid idx image_path sha =
     (case fs image_path of
        None \<Rightarrow> False
      | Some data \<Rightarrow>
          (case image_reply net eid idx sha data of
             ConnectionError \<Rightarrow> False
           | Response st body \<Rightarrow> \<not> raise_for_status st))"

fun py_str :: "json_value \<Rightarrow> string" where
  \<comment> \<open>\<^verbatim>\<open>str(v)\<close> of a decoded JSON scalar.\<close>
  "py_str JNull = ''None''"
| "py_str (JBool b) = (if b then ''True'' else ''False'')"
| "py_str (JInt n) = str_int n"
| "py_str (JStr s) = s"

section \<open>Camera and sensor backends\<close>

definition burst_path :: "string \<Rightarrow> int \<Rightarrow> int \<Rightarrow> string" where
  \<comment> \<open>\<^verbatim>\<open>str(out_dir / f'{event_local_id:08d}_{idx:03d}.jpg')\<close>, \<open>out_dir\<close> in normal form.\<close>
  "burst_path out_dir eid idx =
     out_dir @ ''/'' @ fmt_0d 8 eid @ ''_'' @ fmt_0d 3 idx @ ''.jpg''"

definition py_range :: "int \<Rightarrow> int list" where
  "py_range n = map int [0..<nat n]"

text \<open>
  \<^verbatim>\<open>camera/mock_camera.py\<close>. The environment of one burst: the clock, the JPEG bytes that
  \<^verbatim>\<open>img.save\<close> writes for each index (the colours are random), and the paths at which
  writing fails. The hash function is \<^verbatim>\<open>hashlib.sha256(...).hexdigest()\<close>, an argument.
\<close>

record mock_env =
  mock_now :: timestamp
  jpeg :: "int \<Rightarrow> bytes"
  save_fails :: "string \<Rightarrow> bool"

record mock_camera =
  mock_width :: int
  mock_height :: int

definition MockCamera :: mock_camera where
  "MockCamera = \<lparr>mock_width = 640, mock_height = 480\<rparr>"

fun mock_burst ::
  "(bytes \<Rightarrow> string) \<Rightarrow> mock_camera \<Rightarrow> mock_env \<Rightarrow> int \<Rightarrow> string \<Rightarrow> int list \<Rightarrow>
   captured_image list \<Rightarrow> filesystem \<Rightarrow> filesystem \<times> (error + captured_image list)" where
  "mock_burst sha256 cam env eid out_dir [] captured fs = (fs, Inr captured)"
| "mock_burst sha256 cam env eid out_dir (idx # rest) captured fs =
     (let path = burst_path out_dir eid idx in
      if save_fails env path then (fs, Inl OSError)
      else
        (let fs' = fs(path \<mapsto> jpeg env idx) in
         case fs' path of
           None \<Rightarrow> (fs', Inl OSError)
         | Some data \<Rightarrow>
             mock_burst sha256 cam env eid out_dir rest
               (captured @
                  [\<lparr>image_index = idx, local_path = path, size_bytes = int (length data),
                    sha256_hex = sha256 data, width_px = mock_width cam,
                    height_px = mock_height cam, format = ''jpg'',
                    captured_at = mock_now env\<rparr>])
               fs'))"

definition mock_capture_burst ::
  "(bytes \<Rightarrow> string) \<Rightarrow> mock_camera \<Rightarrow> mock_env \<Rightarrow> int \<Rightarrow> string \<Rightarrow> int \<Rightarrow>
   filesystem \<Rightarrow> filesystem \<times> (error + captured_image list)" where
  "mock_capture_burst sha256 cam env eid out_dir n fs =
     mock_burst sha256 cam env eid out_dir (py_range n) [] fs"

text \<open>
  \<^verbatim>\<open>camera/rpi_camera.py\<close>. The environment of one burst: what the run of
  \<^verbatim>\<open>libcamera-still\<close> does (the tool is missing, it fails, or it ends well), the file
  system it leaves, and the clock at each image.
\<close>

datatype tool_status = Tool_missing | Tool_failed | Tool_ok

record rpi_env =
  tool_status :: tool_status
  tool_files :: filesystem
  rpi_now :: "int \<Rightarrow> timestamp"

record rpi_camera =
  rpi_width :: int
  rpi_height :: int
  rpi_quality :: int

definition RpiCamera :: rpi_camera where
  "RpiCamera = \<lparr>rpi_width = 4056, rpi_height = 3040, rpi_quality = 90\<rparr>"

fun rpi_collect ::
  "(bytes \<Rightarrow> string) \<Rightarrow> rpi_camera \<Rightarrow> rpi_env \<Rightarrow> int \<Rightarrow> string \<Rightarrow> filesystem \<Rightarrow>
   int list \<Rightarrow> captured_image list" where
  "rpi_collect sha256 cam env eid out_dir fs [] = []"
| "rpi_collect sha256 cam env eid out_dir fs (idx # rest) =
     (let path = burst_path out_dir eid idx in
      case fs path of
        None \<Rightarrow> rpi_collect sha256 cam env eid out_dir fs rest
      | Some data \<Rightarrow>
          \<lparr>image_index = idx, local_path = path, size_bytes = int (length data),
           sha256_hex = sha256 data, width_px = rpi_width cam, height_px = rpi_height cam,
           format = ''jpg'', captured_at = rpi_now env idx\<rparr>
          # rpi_collect sha256 cam env eid out_dir fs rest)"

definition rpi_capture_burst ::
  "(bytes \<Rightarrow> string) \<Rightarrow> rpi_camera \<Rightarrow> rpi_env \<Rightarrow> int \<Rightarrow> string \<Rightarrow> int \<Rightarrow>
   filesystem \<Rightarrow> filesystem \<times> (error + captured_image list)" where
  "rpi_capture_burst sha256 cam env eid out_dir n fs =
     (case tool_status env of
        Tool_missing \<Rightarrow> (fs, Inl NotImplementedError)
      | Tool_failed \<Rightarrow> (tool_files env, Inl RuntimeError)
      | Tool_ok \<Rightarrow>
          (tool_files env,
           Inr (rpi_collect sha256 cam env eid out_dir (tool_files env)
                  (py_range n))))"


definition dht22_read ::
  "timestamp \<Rightarrow> real option \<Rightarrow> real option \<Rightarrow> int \<Rightarrow> int \<Rightarrow> error + sensor_reading" where
  "dht22_read now humidity temperature crate reading =
     (if humidity = None \<or> temperature = None then Inl RuntimeError
      else Inr \<lparr>reading_id = reading, crate_id = crate, recorded_at = now,
                temperature_c = temperature, humidity_pct = humidity\<rparr>)"

section \<open>The controller\<close>

text \<open>
  \<^verbatim>\<open>main.py\<close>, class \<^verbatim>\<open>SmartLarvaEdge\<close>: the two counters, the crate resolved at
  startup, the store and the file system the process works on.
\<close>

record config =
  device_id :: string
  cfg_burst_size :: int
  image_dir :: string
  retention_days :: int
  extra_camera_name :: "string option"

record edge =
  event_counter :: int
  reading_counter :: int
  edge_crate_id :: int
  db :: database
  files :: filesystem

definition get_max_id :: "int list \<Rightarrow> int" where
  \<comment> \<open>\<^verbatim>\<open>_get_max_id\<close>, on the values of the column.\<close>
  "get_max_id column = (case max_id column of None \<Rightarrow> 0 | Some m \<Rightarrow> m)"

definition startup :: "int \<Rightarrow> database \<Rightarrow> filesystem \<Rightarrow> edge" where
  \<comment> \<open>\<^verbatim>\<open>__init__\<close>: the counters are seeded from the stored maxima.\<close>
  "startup crate d fs =
     \<lparr>event_counter = get_max_id (map event_id (capture_events_local d)),
      reading_counter = get_max_id (map reading_id (sensor_readings_local d)),
      edge_crate_id = crate, db = d, files = fs\<rparr>"

subsection \<open>One iteration of \<^verbatim>\<open>capture_loop\<close>\<close>

text \<open>
  The environment of a capture tick: the clock, the sensor (\<open>None\<close> when it is disabled;
  otherwise what \<^verbatim>\<open>sensor.read\<close> does this time) and the camera backend (what
  \<^verbatim>\<open>capture_burst\<close> does this time to the file system, and what it returns or raises).
  The tick returns the new state and the exception its \<^verbatim>\<open>except\<close> clause caught, if any.
\<close>

record capture_env =
  clock :: timestamp
  sensor :: "(int \<Rightarrow> int \<Rightarrow> error + sensor_reading) option"
  camera :: "int \<Rightarrow> string \<Rightarrow> int \<Rightarrow> filesystem \<Rightarrow> filesystem \<times> (error + captured_image list)"

definition new_image_row :: "int \<Rightarrow> captured_image \<Rightarrow> image_row" where
  "new_image_row eid img =
     \<lparr>image_index = image_index img, local_path = local_path img,
      size_bytes = size_bytes img, sha256_hex = sha256_hex img, width_px = width_px img,
      height_px = height_px img, format = format img, captured_at = captured_at img,
      img_id = None, event_local_id = eid, metadata_uploaded = 0, uploaded = 0,
      local_exists = 1, corrupted = 0\<rparr>"

fun insert_images :: "int \<Rightarrow> captured_image list \<Rightarrow> database \<Rightarrow> database \<times> error option" where
  "insert_images eid [] d = (d, None)"
| "insert_images eid (img # images) d =
     (case insert_image (new_image_row eid img) d of
        Inl e \<Rightarrow> (d, Some e)
      | Inr d' \<Rightarrow> insert_images eid images d')"

definition sensor_step :: "capture_env \<Rightarrow> edge \<Rightarrow> edge \<times> error option" where
  "sensor_step env st =
     (case sensor env of
        None \<Rightarrow> (st, None)
      | Some read \<Rightarrow>
          (let rid = reading_counter st + 1;
               st' = st\<lparr>reading_counter := rid\<rparr> in
           case read (edge_crate_id st') rid of
             Inl e \<Rightarrow> (st', Some e)
           | Inr reading \<Rightarrow>
               (case insert_sensor_reading
                       \<lparr>reading_id = reading_id reading, crate_id = crate_id reading,
                        recorded_at = recorded_at reading,
                        temperature_c = temperature_c reading,
                        humidity_pct = humidity_pct reading, rd_uploaded = 0\<rparr> (db st') of
                  Inl e \<Rightarrow> (st', Some e)
                | Inr d \<Rightarrow> (st'\<lparr>db := d\<rparr>, None))))"

definition camera_step :: "config \<Rightarrow> capture_env \<Rightarrow> int \<Rightarrow> edge \<Rightarrow> edge \<times> error option" where
  "camera_step cfg env eid st =
     (case camera env eid (image_dir cfg) (cfg_burst_size cfg) (files st) of
        (fs, Inl e) \<Rightarrow> (st\<lparr>files := fs\<rparr>, Some e)
      | (fs, Inr images) \<Rightarrow>
          (let d = insert_event
                     \<lparr>event_id = eid, ev_crate_id = edge_crate_id st,
                      camera_name =
                        (case extra_camera_name cfg of None \<Rightarrow> ''camera_0'' | Some c \<Rightarrow> c),
                      ev_captured_at = clock env, burst_size = int (length images),
                      ev_uploaded = 0\<rparr> (db st) in
           case insert_images eid images d of
             (d', err) \<Rightarrow> (st\<lparr>files := fs, db := d'\<rparr>, err)))"

definition capture_tick :: "config \<Rightarrow> capture_env \<Rightarrow> edge \<Rightarrow> edge \<times> error option" where
  "capture_tick cfg env st =
     (let eid = event_counter st + 1;
          st1 = st\<lparr>event_counter := eid\<rparr> in
      case sensor_step env st1 of
        (st2, Some e) \<Rightarrow> (st2, Some e)
      | (st2, None) \<Rightarrow> camera_step cfg env eid st2)"

subsection \<open>One iteration of \<^verbatim>\<open>heartbeat_loop\<close>\<close>

definition heartbeat_tick :: "uplink \<Rightarrow> edge \<Rightarrow> edge" where
  "heartbeat_tick net st =
     (let last_event_id = get_max_id (map event_id (capture_events_local (db st))) in
      case send_heartbeat net last_event_id of
        None \<Rightarrow> st
      | Some safe_id \<Rightarrow> st\<lparr>db := set_state_value watermark_key (py_str safe_id) (db st)\<rparr>)"

subsection \<open>One iteration of \<^verbatim>\<open>sync_loop\<close>\<close>

definition event_meta :: "config \<Rightarrow> database \<Rightarrow> event_row \<Rightarrow> payload" where
  "event_meta cfg d e =
     Event_meta (device_id cfg) (event_id e) (ev_crate_id e) (camera_name e)
       (ev_captured_at e) (burst_size e)
       (map (\<lambda>img. (image_index img, size_bytes img, sha256_hex img, width_px img,
                     height_px img, format img))
          (get_images_for_event (event_id e) d))"

definition reading_meta :: "config \<Rightarrow> reading_row \<Rightarrow> payload" where
  "reading_meta cfg r =
     Reading_meta (device_id cfg) (reading_id r) (crate_id r) (recorded_at r)
       (temperature_c r) (humidity_pct r)"

definition mark_events :: "event_row list \<Rightarrow> database \<Rightarrow> database" where
  "mark_events events d =
     fold (\<lambda>e d. mark_image_metadata_uploaded (event_id e) (mark_event_uploaded (event_id e) d))
       events d"

definition sync_metadata :: "config \<Rightarrow> uplink \<Rightarrow> database \<Rightarrow> database" where
  "sync_metadata cfg net d =
     (let events = get_unsynced_events 5 d in
      if events \<noteq> [] then
        (if upload_metadata net (map (event_meta cfg d) events) then mark_events events d
         else d)
      else d)"

definition sync_readings :: "config \<Rightarrow> uplink \<Rightarrow> database \<Rightarrow> database" where
  "sync_readings cfg net d =
     (let readings = get_sensor_readings 0 10 d in
      if readings \<noteq> [] then
        (if upload_metadata net (map (reading_meta cfg) readings)
         then fold (\<lambda>r d. mark_reading_uploaded (reading_id r) d) readings d
         else d)
      else d)"

definition sync_image :: "uplink \<Rightarrow> filesystem \<Rightarrow> image_row \<Rightarrow> database \<Rightarrow> database" where
  "sync_image net fs img d =
     (if upload_image net fs (event_local_id img) (image_index img) (local_path img)
           (sha256_hex img)
      then mark_image_uploaded (event_local_id img) (image_index img) d
      else mark_image_corrupted (img_id img) d)"

definition sync_images :: "uplink \<Rightarrow> filesystem \<Rightarrow> database \<Rightarrow> database" where
  "sync_images net fs d = fold (sync_image net fs) (get_unsynced_images 3 d) d"

definition sync_tick :: "config \<Rightarrow> uplink \<Rightarrow> edge \<Rightarrow> edge" where
  "sync_tick cfg net st =
     st\<lparr>db := sync_images net (files st) (sync_readings cfg net (sync_metadata cfg net (db st)))\<rparr>"

subsection \<open>One iteration of \<^verbatim>\<open>cleanup_loop\<close>\<close>

text \<open>
  The environment of a cleanup tick: the clock the store reads, and the paths at which
  \<^verbatim>\<open>os.remove\<close> raises.
\<close>

record cleanup_env =
  cleanup_now :: timestamp
  remove_fails :: "string \<Rightarrow> bool"

definition cleanup_image ::
  "cleanup_env \<Rightarrow> image_row \<Rightarrow> database \<times> filesystem \<Rightarrow> database \<times> filesystem" where
  "cleanup_image env img s =
     (case s of (d, fs) \<Rightarrow>
        (let path = local_path img in
         if fs path \<noteq> None then
           (if remove_fails env path then (d, fs)
            else (mark_image_deleted (img_id img) d, fs(path := None)))
         else (mark_image_deleted (img_id img) d, fs)))"

definition cleanup_tick :: "config \<Rightarrow> cleanup_env \<Rightarrow> edge \<Rightarrow> edge" where
  "cleanup_tick cfg env st =
     (case get_state_value watermark_key (db st) of
        None \<Rightarrow> st
      | Some safe_id_str \<Rightarrow>
          (case py_int safe_id_str of
             None \<Rightarrow> st
           | Some safe_id \<Rightarrow>
               (case fold (cleanup_image env)
                       (get_cleanup_candidates (cleanup_now env) safe_id (retention_days cfg) 20
                          (db st))
                       (db st, files st) of
                  (d, fs) \<Rightarrow> st\<lparr>db := d, files := fs\<rparr>)))"

subsection \<open>Runs of the process\<close>

text \<open>
  A run is a sequence of ticks of the four loops, in any order, and of restarts of the
  process, which keep the store and the files and seed the counters again.
\<close>

datatype tick =
  Capture capture_env | Heartbeat uplink | Sync uplink | Cleanup cleanup_env | Restart

fun step :: "config \<Rightarrow> tick \<Rightarrow> edge \<Rightarrow> edge" where
  "step cfg (Capture env) st = fst (capture_tick cfg env st)"
| "step cfg (Heartbeat net) st = heartbeat_tick net st"
| "step cfg (Sync net) st = sync_tick cfg net st"
| "step cfg (Cleanup env) st = cleanup_tick cfg env st"
| "step cfg Restart st = startup (edge_crate_id st) (db st) (files st)"

definition run :: "config \<Rightarrow> tick list \<Rightarrow> edge \<Rightarrow> edge" where
  "run cfg ticks st = fold (step cfg) ticks st"

section \<open>Notions used in the statements\<close>

subsection \<open>Requests and outcomes\<close>

definition heartbeat_response :: "uplink \<Rightarrow> edge \<Rightarrow> http_result" where
  \<comment> \<open>What the network does with the request of this heartbeat tick.\<close>
  "heartbeat_response net st =
     heartbeat_reply net (get_max_id (map event_id (capture_events_local (db st))))"

definition upload_ok :: "uplink \<Rightarrow> filesystem \<Rightarrow> image_row \<Rightarrow> bool" where
  \<comment> \<open>What \<^verbatim>\<open>upload_image\<close> returns for a row, called as \<^verbatim>\<open>sync_loop\<close> calls it.\<close>
  "upload_ok net fs r =
     upload_image net fs (event_local_id r) (image_index r) (local_path r) (sha256_hex r)"

definition blocked :: "cleanup_env \<Rightarrow> filesystem \<Rightarrow> string \<Rightarrow> bool" where
  \<comment> \<open>The file exists and \<^verbatim>\<open>os.remove\<close> raises on it.\<close>
  "blocked env fs p \<longleftrightarrow> fs p \<noteq> None \<and> remove_fails env p"

subsection \<open>What a batch of marks does to the store\<close>

text \<open>
  A loop that marks the rows of a batch one after another changes the store as these
  functions do in one step: each sets one flag on the rows whose identifier, key or event is
  in a set.
\<close>

definition delete_ids :: "nat option set \<Rightarrow> database \<Rightarrow> database" where
  "delete_ids S d =
     d\<lparr>captured_images_local :=
         map (\<lambda>r. if img_id r \<noteq> None \<and> img_id r \<in> S then r\<lparr>local_exists := 0\<rparr> else r)
           (captured_images_local d)\<rparr>"

definition mark_event_set :: "int set \<Rightarrow> database \<Rightarrow> database" where
  "mark_event_set E d =
     d\<lparr>capture_events_local :=
         map (\<lambda>e. if event_id e \<in> E then e\<lparr>ev_uploaded := 1\<rparr> else e) (capture_events_local d),
       captured_images_local :=
         map (\<lambda>r. if event_local_id r \<in> E then r\<lparr>metadata_uploaded := 1\<rparr> else r)
           (captured_images_local d)\<rparr>"

definition mark_sets :: "(int \<times> int) set \<Rightarrow> nat option set \<Rightarrow> database \<Rightarrow> database" where
  "mark_sets U C d =
     d\<lparr>captured_images_local :=
         map (\<lambda>r. r\<lparr>uploaded := (if image_key r \<in> U then 1 else uploaded r),
                     corrupted := (if img_id r \<noteq> None \<and> img_id r \<in> C then 1 else corrupted r)\<rparr>)
           (captured_images_local d)\<rparr>"


subsection \<open>Columns that never change, and what the store keeps true\<close>

definition row_fixed :: "image_row \<Rightarrow> nat option \<times> int \<times> int \<times> string \<times> string" where
  \<comment> \<open>The columns of an image row that identify the image and its content.\<close>
  "row_fixed r = (img_id r, event_local_id r, image_index r, local_path r, sha256_hex r)"


definition store_ok :: "database \<Rightarrow> bool" where
  \<comment> \<open>What the store keeps true of the image table: the primary key, the unique key of an
      image within its event, and no row both corrupted and uploaded.\<close>
  "store_ok d \<longleftrightarrow>
     distinct (map img_id (captured_images_local d))
     \<and> None \<notin> set (map img_id (captured_images_local d))
     \<and> distinct (map image_key (captured_images_local d))
     \<and> (\<forall>r \<in> set (captured_images_local d). corrupted r = 1 \<longrightarrow> uploaded r = 0)"



subsection \<open>The camera's artifacts and its calls of the hash function\<close>

text \<open>
  The artifact the mock camera returns for one index, and the two \<^verbatim>\<open>capture_burst\<close> loops
  once more, now also returning the paths on which they call \<^verbatim>\<open>_compute_sha256\<close>, in the
  order of the calls.
\<close>

definition mock_image :: "(bytes \<Rightarrow> string) \<Rightarrow> mock_camera \<Rightarrow> mock_env \<Rightarrow> int \<Rightarrow> string \<Rightarrow> int \<Rightarrow> captured_image" where
  \<comment> \<open>The artifact the mock camera returns for one index.\<close>
  "mock_image sha256 cam env eid out_dir idx =
     \<lparr>image_index = idx, local_path = burst_path out_dir eid idx,
      size_bytes = int (length (jpeg env idx)), sha256_hex = sha256 (jpeg env idx),
      width_px = mock_width cam, height_px = mock_height cam, format = ''jpg'',
      captured_at = mock_now env\<rparr>"

fun mock_burst_traced ::
  "(bytes \<Rightarrow> string) \<Rightarrow> mock_camera \<Rightarrow> mock_env \<Rightarrow> int \<Rightarrow> string \<Rightarrow> int list \<Rightarrow>
   captured_image list \<Rightarrow> filesystem \<Rightarrow>
   filesystem \<times> (error + captured_image list) \<times> string list" where
  "mock_burst_traced sha256 cam env eid out_dir [] captured fs = (fs, Inr captured, [])"
| "mock_burst_traced sha256 cam env eid out_dir (idx # rest) captured fs =
     (let path = burst_path out_dir eid idx in
      if save_fails env path then (fs, Inl OSError, [])
      else
        (let fs' = fs(path \<mapsto> jpeg env idx) in
         case fs' path of
           None \<Rightarrow> (fs', Inl OSError, [])
         | Some data \<Rightarrow>
             (case mock_burst_traced sha256 cam env eid out_dir rest
                     (captured @
                        [\<lparr>image_index = idx, local_path = path, size_bytes = int (length data),
                          sha256_hex = sha256 data, width_px = mock_width cam,
                          height_px = mock_height cam, format = ''jpg'',
                          captured_at = mock_now env\<rparr>])
                     fs' of
                (fs'', res, calls) \<Rightarrow> (fs'', res, path # calls))))"

fun rpi_collect_traced ::
  "(bytes \<Rightarrow> string) \<Rightarrow> rpi_camera \<Rightarrow> rpi_env \<Rightarrow> int \<Rightarrow> string \<Rightarrow> filesystem \<Rightarrow>
   int list \<Rightarrow> captured_image list \<times> string list" where
  "rpi_collect_traced sha256 cam env eid out_dir fs [] = ([], [])"
| "rpi_collect_traced sha256 cam env eid out_dir fs (idx # rest) =
     (let path = burst_path out_dir eid idx in
      case fs path of
        None \<Rightarrow> rpi_collect_traced sha256 cam env eid out_dir fs rest
      | Some data \<Rightarrow>
          (case rpi_collect_traced sha256 cam env eid out_dir fs rest of
             (images, calls) \<Rightarrow>
               (\<lparr>image_index = idx, local_path = path, size_bytes = int (length data),
                 sha256_hex = sha256 data, width_px = rpi_width cam, height_px = rpi_height cam,
                 format = ''jpg'', captured_at = rpi_now env idx\<rparr> # images,
                path # calls)))"

definition digits_value :: "string \<Rightarrow> nat" where
  \<comment> \<open>The number a string of decimal digits denotes.\<close>
  "digits_value s = fold (\<lambda>c a. a * 10 + (of_char c - 48)) s 0"

subsection \<open>Allocated identifiers\<close>



subsection \<open>Concrete inputs\<close>

definition cfg0 :: config where
  "cfg0 =
     \<lparr>device_id = ''device-001'', cfg_burst_size = 2, image_dir = ''images'',
      retention_days = 0, extra_camera_name = None\<rparr>"

definition fresh_edge :: edge where
  "fresh_edge = startup 1 empty_database Map.empty"

definition uplink_down :: uplink where
  "uplink_down =
     \<lparr>heartbeat_reply = (\<lambda>_. ConnectionError), metadata_reply = (\<lambda>_. ConnectionError),
      image_reply = (\<lambda>_ _ _ _. ConnectionError)\<rparr>"

definition uplink_ok :: "int \<Rightarrow> uplink" where
  "uplink_ok w =
     \<lparr>heartbeat_reply = (\<lambda>_. Response 200 (JObject [watermark_key \<mapsto> JInt w])),
      metadata_reply = (\<lambda>_. Response 200 NotJson),
      image_reply = (\<lambda>_ _ _ _. Response 200 NotJson)\<rparr>"

definition image_a :: image_row where
  "image_a =
     \<lparr>image_index = 0, local_path = ''images/00000001_000.jpg'', size_bytes = 2,
      sha256_hex = ''h1'', width_px = 640, height_px = 480, format = ''jpg'', captured_at = 100,
      img_id = Some 1, event_local_id = 1, metadata_uploaded = 1, uploaded = 0,
      local_exists = 1, corrupted = 0\<rparr>"

definition image_b :: image_row where
  "image_b =
     \<lparr>image_index = 0, local_path = ''images/00000007_000.jpg'', size_bytes = 2,
      sha256_hex = ''h7'', width_px = 640, height_px = 480, format = ''jpg'', captured_at = 100,
      img_id = Some 2, event_local_id = 7, metadata_uploaded = 0, uploaded = 0,
      local_exists = 1, corrupted = 0\<rparr>"

definition store_two :: database where
  "store_two =
     \<lparr>capture_events_local = [], captured_images_local = [image_a, image_b],
      sensor_readings_local = [], process_state = [watermark_key \<mapsto> ''5'']\<rparr>"

definition edge_two :: edge where
  "edge_two =
     startup 1 store_two
       [''images/00000001_000.jpg'' \<mapsto> ''aa'', ''images/00000007_000.jpg'' \<mapsto> ''bb'']"

definition event_one :: event_row where
  "event_one =
     \<lparr>event_id = 1, ev_crate_id = 1, camera_name = ''camera_0'', ev_captured_at = 100,
      burst_size = 1, ev_uploaded = 0\<rparr>"

definition store_one :: database where
  "store_one =
     \<lparr>capture_events_local = [event_one],
      captured_images_local = [image_a\<lparr>metadata_uploaded := 0\<rparr>],
      sensor_readings_local = [], process_state = Map.empty\<rparr>"

definition edge_one :: edge where
  "edge_one = startup 1 store_one [''images/00000001_000.jpg'' \<mapsto> ''aa'']"



definition cleanup_env_ok :: cleanup_env where
  "cleanup_env_ok = \<lparr>cleanup_now = 1000, remove_fails = (\<lambda>_. False)\<rparr>"

definition cleanup_env_denied :: cleanup_env where
  "cleanup_env_denied = \<lparr>cleanup_now = 1000, remove_fails = (\<lambda>_. True)\<rparr>"

definition test_digest :: "bytes \<Rightarrow> string" where
  \<comment> \<open>A stand-in for the hash function in the concrete runs.\<close>
  "test_digest data = ''h'' @ data"

definition mock_world :: mock_env where
  "mock_world =
     \<lparr>mock_now = 100, jpeg = (\<lambda>idx. if idx = 0 then ''aa'' else ''bb''),
      save_fails = (\<lambda>_. False)\<rparr>"

definition capture_env_mock :: capture_env where
  "capture_env_mock =
     \<lparr>clock = 100, sensor = None,
      camera = mock_capture_burst test_digest MockCamera mock_world\<rparr>"

definition rpi_world :: rpi_env where
  \<comment> \<open>The tool ends well but leaves only the first of the two frames.\<close>
  "rpi_world =
     \<lparr>tool_status = Tool_ok, tool_files = [''images/00000001_000.jpg'' \<mapsto> ''aa''],
      rpi_now = (\<lambda>_. 100)\<rparr>"

definition capture_env_rpi :: capture_env where
  "capture_env_rpi =
     \<lparr>clock = 100, sensor = None, camera = rpi_capture_burst test_digest RpiCamera rpi_world\<rparr>"



definition later_ticks :: "tick list" where
  \<comment> \<open>The server acknowledges event 5, the sync uploads, the cleanup deletes, the process restarts.\<close>
  "later_ticks = [Heartbeat (uplink_ok 5), Sync (uplink_ok 5), Cleanup cleanup_env_ok, Restart]"


section \<open>The heartbeat and the watermark\<close>

lemma str_int_5: "str_int 5 = ''5''"
  by code_simp

text \<open>
  Claim C7. A heartbeat tick that fails (the request raises, the status is an error, the
  body is not a JSON object, or the object has no watermark or a null one) leaves the
  whole state, and so the stored watermark, as it was; a tick whose response carries a
  watermark stores the string of that value under the watermark key and changes nothing
  else.
\<close>

theorem heartbeat_keeps_or_stores_watermark:
  "((heartbeat_response net st = ConnectionError
     \<or> (\<exists>code body. heartbeat_response net st = Response code body
           \<and> (raise_for_status code \<or> body = NotJson \<or> body = NotAnObject
               \<or> (\<exists>data. body = JObject data
                     \<and> (data watermark_key = None \<or> data watermark_key = Some JNull)))))
      \<longrightarrow> heartbeat_tick net st = st)
   \<and> (\<forall>code data v.
         heartbeat_response net st = Response code (JObject data)
           \<and> \<not> raise_for_status code \<and> data watermark_key = Some v \<and> v \<noteq> JNull
         \<longrightarrow> heartbeat_tick net st =
               st\<lparr>db := (db st)\<lparr>process_state := (process_state (db st))(watermark_key \<mapsto> py_str v)\<rparr>\<rparr>
             \<and> get_state_value watermark_key (db (heartbeat_tick net st)) = Some (py_str v))"
proof (intro conjI impI allI)
  assume "heartbeat_response net st = ConnectionError
     \<or> (\<exists>code body. heartbeat_response net st = Response code body
           \<and> (raise_for_status code \<or> body = NotJson \<or> body = NotAnObject
               \<or> (\<exists>data. body = JObject data
                     \<and> (data watermark_key = None \<or> data watermark_key = Some JNull))))"
  then have "send_heartbeat net (get_max_id (map event_id (capture_events_local (db st)))) = None"
    unfolding heartbeat_response_def send_heartbeat_def by auto
  then show "heartbeat_tick net st = st"
    by (simp add: heartbeat_tick_def)
next
  fix code data v
  assume a: "heartbeat_response net st = Response code (JObject data)
           \<and> \<not> raise_for_status code \<and> data watermark_key = Some v \<and> v \<noteq> JNull"
  then have s: "send_heartbeat net (get_max_id (map event_id (capture_events_local (db st)))) = Some v"
    unfolding heartbeat_response_def send_heartbeat_def by (cases v) auto
  then show "heartbeat_tick net st =
               st\<lparr>db := (db st)\<lparr>process_state := (process_state (db st))(watermark_key \<mapsto> py_str v)\<rparr>\<rparr>"
    by (simp add: heartbeat_tick_def set_state_value_def)
  from s show "get_state_value watermark_key (db (heartbeat_tick net st)) = Some (py_str v)"
    by (simp add: heartbeat_tick_def set_state_value_def get_state_value_def)
qed

theorem heartbeat_keeps_or_stores_watermark_witness:
  "heartbeat_tick uplink_down fresh_edge = fresh_edge
   \<and> get_state_value watermark_key (db (heartbeat_tick (uplink_ok 5) fresh_edge)) = Some ''5''"
proof -
  have down: "heartbeat_response uplink_down fresh_edge = ConnectionError"
    by (simp add: heartbeat_response_def uplink_down_def)
  have ok: "heartbeat_response (uplink_ok 5) fresh_edge
              = Response 200 (JObject [watermark_key \<mapsto> JInt 5])
            \<and> \<not> raise_for_status 200
            \<and> [watermark_key \<mapsto> JInt 5] watermark_key = Some (JInt 5) \<and> JInt 5 \<noteq> JNull"
    by (simp add: heartbeat_response_def uplink_ok_def raise_for_status_def)
  from down heartbeat_keeps_or_stores_watermark [of uplink_down fresh_edge]
  have 1: "heartbeat_tick uplink_down fresh_edge = fresh_edge"
    by blast
  from ok heartbeat_keeps_or_stores_watermark [of "uplink_ok 5" fresh_edge]
  have 2: "get_state_value watermark_key (db (heartbeat_tick (uplink_ok 5) fresh_edge))
             = Some (py_str (JInt 5))"
    by blast
  from 1 2 show ?thesis
    by (simp add: str_int_5)
qed

section \<open>Cleanup and the watermark\<close>

lemma delete_ids_empty: "delete_ids {} d = d"
  by (simp add: delete_ids_def)

lemma mark_image_deleted_delete_ids:
  "mark_image_deleted i (delete_ids S d) = delete_ids (insert i S) d"
  by (rule database.equality) (auto simp: mark_image_deleted_def delete_ids_def)

lemma blocked_after_remove:
  "\<not> blocked env fs p \<Longrightarrow> blocked env (fs(p := None)) = blocked env fs"
  by (auto simp: blocked_def fun_eq_iff)

lemma cleanup_image_delete_ids:
  "cleanup_image env c (delete_ids S d, fs) =
     (if blocked env fs (local_path c) then (delete_ids S d, fs)
      else (delete_ids (insert (img_id c) S) d, fs(local_path c := None)))"
  by (auto simp: cleanup_image_def blocked_def mark_image_deleted_delete_ids Let_def fun_eq_iff)

lemma cleanup_fold:
  "fold (cleanup_image env) cs (delete_ids S d, fs) =
     (delete_ids (S \<union> img_id ` {c \<in> set cs. \<not> blocked env fs (local_path c)}) d,
      (\<lambda>p. if p \<in> local_path ` set cs \<and> \<not> blocked env fs p then None else fs p))"
proof (induction cs arbitrary: S fs)
  case Nil
  show ?case by simp
next
  case (Cons c cs)
  show ?case
  proof (cases "blocked env fs (local_path c)")
    case True
    have "{x \<in> set (c # cs). \<not> blocked env fs (local_path x)}
            = {x \<in> set cs. \<not> blocked env fs (local_path x)}"
      using True by auto
    moreover have "(\<lambda>p. if p \<in> local_path ` set (c # cs) \<and> \<not> blocked env fs p then None else fs p)
            = (\<lambda>p. if p \<in> local_path ` set cs \<and> \<not> blocked env fs p then None else fs p)"
      using True by (auto simp: fun_eq_iff)
    ultimately show ?thesis
      using True by (simp add: cleanup_image_delete_ids Cons.IH)
  next
    case False
    have b: "blocked env (fs(local_path c := None)) = blocked env fs"
      using False by (rule blocked_after_remove)
    have ids: "insert (img_id c) S \<union> img_id ` {x \<in> set cs. \<not> blocked env fs (local_path x)}
            = S \<union> img_id ` {x \<in> set (c # cs). \<not> blocked env fs (local_path x)}"
      using False by auto
    have fs: "(\<lambda>p. if p \<in> local_path ` set cs \<and> \<not> blocked env fs p then None
                        else (fs(local_path c := None)) p)
            = (\<lambda>p. if p \<in> local_path ` set (c # cs) \<and> \<not> blocked env fs p then None else fs p)"
      using False by (auto simp: fun_eq_iff)
    have "fold (cleanup_image env) (c # cs) (delete_ids S d, fs)
            = fold (cleanup_image env) cs
                (delete_ids (insert (img_id c) S) d, fs(local_path c := None))"
      using False by (simp add: cleanup_image_delete_ids)
    also have "\<dots> =
        (delete_ids (insert (img_id c) S
                       \<union> img_id ` {x \<in> set cs. \<not> blocked env (fs(local_path c := None)) (local_path x)}) d,
         (\<lambda>p. if p \<in> local_path ` set cs \<and> \<not> blocked env (fs(local_path c := None)) p then None
               else (fs(local_path c := None)) p))"
      by (rule Cons.IH)
    finally show ?thesis
      unfolding b ids fs .
  qed
qed

lemma cleanup_tick_closed:
  assumes "get_state_value watermark_key (db st) = Some s" and "py_int s = Some w"
  shows "cleanup_tick cfg env st =
           st\<lparr>db := delete_ids
                      (img_id ` {c \<in> set (get_cleanup_candidates (cleanup_now env) w (retention_days cfg) 20 (db st)).
                                  \<not> blocked env (files st) (local_path c)}) (db st),
              files := (\<lambda>p. if p \<in> local_path ` set (get_cleanup_candidates (cleanup_now env) w (retention_days cfg) 20 (db st))
                                \<and> \<not> blocked env (files st) p then None else files st p)\<rparr>"
  using assms cleanup_fold [of env _ "{}" "db st" "files st"]
  by (simp add: cleanup_tick_def delete_ids_empty)

lemma candidates_subset:
  "c \<in> set (get_cleanup_candidates now w rd n d) \<Longrightarrow>
     c \<in> set (captured_images_local d) \<and> local_exists c = 1 \<and> event_local_id c \<le> w
     \<and> captured_at c < now - rd * seconds_per_day"
  by (auto simp: get_cleanup_candidates_def dest!: in_set_takeD)

lemma distinct_ids_eq:
  "distinct (map img_id rows) \<Longrightarrow> a \<in> set rows \<Longrightarrow> b \<in> set rows \<Longrightarrow> img_id a = img_id b \<Longrightarrow> a = b"
  by (meson distinct_map inj_onD)

lemma py_int_5: "py_int ''5'' = Some 5"
  by code_simp

lemma edge_two_rows: "captured_images_local (db edge_two) = [image_a, image_b]"
  by (simp add: edge_two_def startup_def store_two_def)

lemma edge_two_watermark: "get_state_value watermark_key (db edge_two) = Some ''5''"
  by (simp add: edge_two_def startup_def store_two_def get_state_value_def)

lemma edge_two_distinct: "distinct (map img_id (captured_images_local (db edge_two)))"
  by (simp add: edge_two_rows image_a_def image_b_def)

lemma edge_two_candidates:
  "get_cleanup_candidates 1000 5 0 20 (db edge_two) = [image_a]"
  by (simp add: get_cleanup_candidates_def edge_two_rows image_a_def image_b_def)

text \<open>
  Claim C1. In a store whose rows have distinct identifiers, a cleanup tick that finds no
  watermark in the process state (or one that \<^verbatim>\<open>int\<close> cannot read) changes nothing, whatever
  the age of the images. With a watermark \<open>w\<close>, every row whose event identifier is greater
  than \<open>w\<close> is after the tick exactly what it was before, and every path whose file the tick
  removed is the path of an image whose event identifier is at most \<open>w\<close>.
\<close>

theorem cleanup_respects_watermark:
  assumes "distinct (map img_id (captured_images_local (db st)))"
  shows "(get_state_value watermark_key (db st) = None \<longrightarrow> cleanup_tick cfg env st = st)
    \<and> (\<forall>s. get_state_value watermark_key (db st) = Some s \<and> py_int s = None
            \<longrightarrow> cleanup_tick cfg env st = st)
    \<and> (\<forall>s w. get_state_value watermark_key (db st) = Some s \<and> py_int s = Some w \<longrightarrow>
          length (captured_images_local (db (cleanup_tick cfg env st)))
            = length (captured_images_local (db st))
          \<and> (\<forall>i < length (captured_images_local (db st)).
                w < event_local_id (captured_images_local (db st) ! i) \<longrightarrow>
                captured_images_local (db (cleanup_tick cfg env st)) ! i
                  = captured_images_local (db st) ! i)
          \<and> (\<forall>p. files (cleanup_tick cfg env st) p \<noteq> files st p \<longrightarrow>
                (\<exists>c \<in> set (captured_images_local (db st)).
                   local_path c = p \<and> event_local_id c \<le> w)))"
proof -
  have absent: "get_state_value watermark_key (db st) = None \<longrightarrow> cleanup_tick cfg env st = st"
    by (simp add: cleanup_tick_def)
  have unreadable: "\<forall>s. get_state_value watermark_key (db st) = Some s \<and> py_int s = None
            \<longrightarrow> cleanup_tick cfg env st = st"
    by (simp add: cleanup_tick_def)
  have present: "\<forall>s w. get_state_value watermark_key (db st) = Some s \<and> py_int s = Some w \<longrightarrow>
          length (captured_images_local (db (cleanup_tick cfg env st)))
            = length (captured_images_local (db st))
          \<and> (\<forall>i < length (captured_images_local (db st)).
                w < event_local_id (captured_images_local (db st) ! i) \<longrightarrow>
                captured_images_local (db (cleanup_tick cfg env st)) ! i
                  = captured_images_local (db st) ! i)
          \<and> (\<forall>p. files (cleanup_tick cfg env st) p \<noteq> files st p \<longrightarrow>
                (\<exists>c \<in> set (captured_images_local (db st)).
                   local_path c = p \<and> event_local_id c \<le> w))"
  proof (intro allI impI)
    fix s w
    assume a: "get_state_value watermark_key (db st) = Some s \<and> py_int s = Some w"
    let ?cands = "get_cleanup_candidates (cleanup_now env) w (retention_days cfg) 20 (db st)"
    from a have cl: "cleanup_tick cfg env st =
           st\<lparr>db := delete_ids
                      (img_id ` {c \<in> set ?cands. \<not> blocked env (files st) (local_path c)}) (db st),
              files := (\<lambda>p. if p \<in> local_path ` set ?cands
                                \<and> \<not> blocked env (files st) p then None else files st p)\<rparr>"
      using cleanup_tick_closed by blast
    have len: "length (captured_images_local (db (cleanup_tick cfg env st)))
            = length (captured_images_local (db st))"
      by (simp add: cl delete_ids_def)
    have rows: "\<forall>i < length (captured_images_local (db st)).
                w < event_local_id (captured_images_local (db st) ! i) \<longrightarrow>
                captured_images_local (db (cleanup_tick cfg env st)) ! i
                  = captured_images_local (db st) ! i"
    proof (intro allI impI)
      fix i
      assume i: "i < length (captured_images_local (db st))"
        and w: "w < event_local_id (captured_images_local (db st) ! i)"
      let ?r = "captured_images_local (db st) ! i"
      have rin: "?r \<in> set (captured_images_local (db st))"
        using i by simp
      have "img_id ?r \<notin> img_id ` {c \<in> set ?cands. \<not> blocked env (files st) (local_path c)}"
      proof
        assume "img_id ?r \<in> img_id ` {c \<in> set ?cands. \<not> blocked env (files st) (local_path c)}"
        then obtain c where c: "c \<in> set ?cands" and e: "img_id ?r = img_id c"
          by auto
        from c have cin: "c \<in> set (captured_images_local (db st))" and le: "event_local_id c \<le> w"
          using candidates_subset by blast+
        from assms rin cin e have "?r = c"
          by (rule distinct_ids_eq)
        with le w show False by simp
      qed
      then show "captured_images_local (db (cleanup_tick cfg env st)) ! i = ?r"
        using i by (simp add: cl delete_ids_def)
    qed
    have fs: "\<forall>p. files (cleanup_tick cfg env st) p \<noteq> files st p \<longrightarrow>
                (\<exists>c \<in> set (captured_images_local (db st)).
                   local_path c = p \<and> event_local_id c \<le> w)"
    proof (intro allI impI)
      fix p
      assume "files (cleanup_tick cfg env st) p \<noteq> files st p"
      then have "p \<in> local_path ` set ?cands"
        by (simp add: cl split: if_splits)
      then show "\<exists>c \<in> set (captured_images_local (db st)). local_path c = p \<and> event_local_id c \<le> w"
        using candidates_subset by blast
    qed
    from len rows fs show "length (captured_images_local (db (cleanup_tick cfg env st)))
            = length (captured_images_local (db st))
          \<and> (\<forall>i < length (captured_images_local (db st)).
                w < event_local_id (captured_images_local (db st) ! i) \<longrightarrow>
                captured_images_local (db (cleanup_tick cfg env st)) ! i
                  = captured_images_local (db st) ! i)
          \<and> (\<forall>p. files (cleanup_tick cfg env st) p \<noteq> files st p \<longrightarrow>
                (\<exists>c \<in> set (captured_images_local (db st)).
                   local_path c = p \<and> event_local_id c \<le> w))"
      by (intro conjI)
  qed
  from absent unreadable present show ?thesis
    by (intro conjI)
qed

theorem cleanup_respects_watermark_witness:
  "distinct (map img_id (captured_images_local (db edge_two)))
   \<and> cleanup_tick cfg0 cleanup_env_ok fresh_edge = fresh_edge
   \<and> captured_images_local (db (cleanup_tick cfg0 cleanup_env_ok edge_two)) ! 1 = image_b"
proof -
  have absent: "get_state_value watermark_key (db fresh_edge) = None"
    by (simp add: fresh_edge_def startup_def empty_database_def get_state_value_def)
  have "distinct (map img_id (captured_images_local (db fresh_edge)))"
    by (simp add: fresh_edge_def startup_def empty_database_def)
  from cleanup_respects_watermark [OF this, of cfg0 cleanup_env_ok] absent
  have 1: "cleanup_tick cfg0 cleanup_env_ok fresh_edge = fresh_edge"
    by blast
  have "1 < length (captured_images_local (db edge_two))
        \<and> 5 < event_local_id (captured_images_local (db edge_two) ! 1)"
    by (simp add: edge_two_rows image_b_def)
  with cleanup_respects_watermark [OF edge_two_distinct, of cfg0 cleanup_env_ok]
    edge_two_watermark py_int_5
  have "captured_images_local (db (cleanup_tick cfg0 cleanup_env_ok edge_two)) ! 1
          = captured_images_local (db edge_two) ! 1"
    by blast
  then have 2: "captured_images_local (db (cleanup_tick cfg0 cleanup_env_ok edge_two)) ! 1 = image_b"
    by (simp add: edge_two_rows)
  from edge_two_distinct 1 2 show ?thesis
    by (intro conjI)
qed

text \<open>
  Claim C9. Let the rows have distinct identifiers, none missing, and let the row at
  position \<open>i\<close> be a candidate of the tick. If its file exists and removing it raises, the
  row and the file are after the tick what they were before. Otherwise, whether the file
  existed or not, the row is the old one with \<open>local_exists = 0\<close> and no file is left at
  its path. This holds for each candidate, whatever happened to the others.
\<close>

theorem cleanup_marks_each_candidate:
  assumes "distinct (map img_id (captured_images_local (db st)))"
    and "None \<notin> set (map img_id (captured_images_local (db st)))"
    and "get_state_value watermark_key (db st) = Some s"
    and "py_int s = Some w"
    and "i < length (captured_images_local (db st))"
    and "captured_images_local (db st) ! i
           \<in> set (get_cleanup_candidates (cleanup_now env) w (retention_days cfg) 20 (db st))"
  shows "(files st (local_path (captured_images_local (db st) ! i)) \<noteq> None
            \<and> remove_fails env (local_path (captured_images_local (db st) ! i))
          \<longrightarrow> captured_images_local (db (cleanup_tick cfg env st)) ! i
                = captured_images_local (db st) ! i
              \<and> files (cleanup_tick cfg env st) (local_path (captured_images_local (db st) ! i))
                = files st (local_path (captured_images_local (db st) ! i)))
       \<and> (\<not> (files st (local_path (captured_images_local (db st) ! i)) \<noteq> None
               \<and> remove_fails env (local_path (captured_images_local (db st) ! i)))
          \<longrightarrow> captured_images_local (db (cleanup_tick cfg env st)) ! i
                = (captured_images_local (db st) ! i)\<lparr>local_exists := 0\<rparr>
              \<and> files (cleanup_tick cfg env st) (local_path (captured_images_local (db st) ! i))
                = None)"
proof -
  let ?rows = "captured_images_local (db st)"
  let ?r = "?rows ! i"
  let ?cands = "get_cleanup_candidates (cleanup_now env) w (retention_days cfg) 20 (db st)"
  let ?D = "img_id ` {c \<in> set ?cands. \<not> blocked env (files st) (local_path c)}"
  have cl: "cleanup_tick cfg env st =
           st\<lparr>db := delete_ids ?D (db st),
              files := (\<lambda>p. if p \<in> local_path ` set ?cands
                                \<and> \<not> blocked env (files st) p then None else files st p)\<rparr>"
    using assms(3,4) by (rule cleanup_tick_closed)
  have rin: "?r \<in> set ?rows"
    using assms(5) by simp
  have some: "img_id ?r \<noteq> None"
    using assms(2) rin by force
  have row: "captured_images_local (db (cleanup_tick cfg env st)) ! i
               = (if img_id ?r \<in> ?D then ?r\<lparr>local_exists := 0\<rparr> else ?r)"
    using assms(5) some by (simp add: cl delete_ids_def)
  have inD: "img_id ?r \<in> ?D \<longleftrightarrow> \<not> blocked env (files st) (local_path ?r)"
  proof
    assume "img_id ?r \<in> ?D"
    then obtain c where c: "c \<in> set ?cands" and nb: "\<not> blocked env (files st) (local_path c)"
      and e: "img_id ?r = img_id c"
      by auto
    from c have "c \<in> set ?rows"
      using candidates_subset by blast
    with assms(1) rin e have "?r = c"
      by (blast intro: distinct_ids_eq)
    with nb show "\<not> blocked env (files st) (local_path ?r)"
      by simp
  next
    assume "\<not> blocked env (files st) (local_path ?r)"
    with assms(6) show "img_id ?r \<in> ?D"
      by blast
  qed
  have onfile: "files (cleanup_tick cfg env st) (local_path ?r)
                = (if blocked env (files st) (local_path ?r) then files st (local_path ?r) else None)"
    using assms(6) by (simp add: cl)
  show ?thesis
    using row inD onfile by (simp add: blocked_def)
qed

theorem cleanup_marks_each_candidate_witness:
  "captured_images_local (db (cleanup_tick cfg0 cleanup_env_denied edge_two)) ! 0 = image_a
   \<and> captured_images_local (db (cleanup_tick cfg0 cleanup_env_ok edge_two)) ! 0
       = image_a\<lparr>local_exists := 0\<rparr>
   \<and> files (cleanup_tick cfg0 cleanup_env_ok edge_two) ''images/00000001_000.jpg'' = None"
proof -
  have ids: "None \<notin> set (map img_id (captured_images_local (db edge_two)))"
    by (simp add: edge_two_rows image_a_def image_b_def)
  have len: "0 < length (captured_images_local (db edge_two))"
    by (simp add: edge_two_rows)
  have cand: "captured_images_local (db edge_two) ! 0
           \<in> set (get_cleanup_candidates (cleanup_now cleanup_env_ok) 5 (retention_days cfg0) 20 (db edge_two))"
    by (simp add: cleanup_env_ok_def cfg0_def edge_two_candidates edge_two_rows)
  have cand': "captured_images_local (db edge_two) ! 0
           \<in> set (get_cleanup_candidates (cleanup_now cleanup_env_denied) 5 (retention_days cfg0) 20 (db edge_two))"
    by (simp add: cleanup_env_denied_def cfg0_def edge_two_candidates edge_two_rows)
  have onfile: "files edge_two (local_path (captured_images_local (db edge_two) ! 0)) \<noteq> None"
    by (simp add: edge_two_rows image_a_def) (simp add: edge_two_def startup_def)
  from cleanup_marks_each_candidate
         [OF edge_two_distinct ids edge_two_watermark py_int_5 len cand'] onfile
  have 1: "captured_images_local (db (cleanup_tick cfg0 cleanup_env_denied edge_two)) ! 0
             = captured_images_local (db edge_two) ! 0"
    by (simp add: cleanup_env_denied_def)
  from cleanup_marks_each_candidate
         [OF edge_two_distinct ids edge_two_watermark py_int_5 len cand]
  have 2: "captured_images_local (db (cleanup_tick cfg0 cleanup_env_ok edge_two)) ! 0
             = (captured_images_local (db edge_two) ! 0)\<lparr>local_exists := 0\<rparr>
           \<and> files (cleanup_tick cfg0 cleanup_env_ok edge_two)
                (local_path (captured_images_local (db edge_two) ! 0)) = None"
    by (simp add: cleanup_env_ok_def)
  from 1 2 show ?thesis
    by (simp add: edge_two_rows) (simp add: image_a_def)
qed


section \<open>The sync tick\<close>

lemma mark_event_set_empty: "mark_event_set {} d = d"
  by (simp add: mark_event_set_def)

lemma mark_event_set_insert:
  "mark_image_metadata_uploaded eid (mark_event_uploaded eid (mark_event_set E d))
     = mark_event_set (insert eid E) d"
  by (rule database.equality)
     (auto simp: mark_event_set_def mark_image_metadata_uploaded_def mark_event_uploaded_def)

lemma mark_events_fold:
  "mark_events events (mark_event_set E d) = mark_event_set (E \<union> event_id ` set events) d"
  unfolding mark_events_def
proof (induction events arbitrary: E)
  case Nil
  show ?case by simp
next
  case (Cons e events)
  have "insert (event_id e) E \<union> event_id ` set events = E \<union> event_id ` set (e # events)"
    by auto
  then show ?case
    by (simp add: mark_event_set_insert Cons.IH)
qed

lemma mark_events_closed:
  "mark_events events d = mark_event_set (event_id ` set events) d"
  using mark_events_fold [of events "{}" d] by (simp add: mark_event_set_empty)

lemma mark_sets_empty: "mark_sets {} {} d = d"
  by (simp add: mark_sets_def)

lemma mark_sets_uploaded:
  "mark_image_uploaded eid idx (mark_sets U C d) = mark_sets (insert (eid, idx) U) C d"
  by (rule database.equality) (auto simp: mark_sets_def mark_image_uploaded_def image_key_def)

lemma mark_sets_corrupted:
  "mark_image_corrupted i (mark_sets U C d) = mark_sets U (insert i C) d"
  by (rule database.equality) (auto simp: mark_sets_def mark_image_corrupted_def)

lemma sync_image_mark_sets:
  "sync_image net fs b (mark_sets U C d) =
     (if upload_ok net fs b then mark_sets (insert (image_key b) U) C d
      else mark_sets U (insert (img_id b) C) d)"
  by (simp add: sync_image_def upload_ok_def mark_sets_uploaded mark_sets_corrupted image_key_def)

lemma sync_images_fold:
  "fold (sync_image net fs) bs (mark_sets U C d) =
     mark_sets (U \<union> image_key ` {b \<in> set bs. upload_ok net fs b})
       (C \<union> img_id ` {b \<in> set bs. \<not> upload_ok net fs b}) d"
proof (induction bs arbitrary: U C)
  case Nil
  show ?case by simp
next
  case (Cons b bs)
  show ?case
  proof (cases "upload_ok net fs b")
    case True
    have "insert (image_key b) U \<union> image_key ` {x \<in> set bs. upload_ok net fs x}
            = U \<union> image_key ` {x \<in> set (b # bs). upload_ok net fs x}"
      and "{x \<in> set bs. \<not> upload_ok net fs x} = {x \<in> set (b # bs). \<not> upload_ok net fs x}"
      using True by auto
    then show ?thesis
      using True by (simp add: sync_image_mark_sets Cons.IH)
  next
    case False
    have "insert (img_id b) C \<union> img_id ` {x \<in> set bs. \<not> upload_ok net fs x}
            = C \<union> img_id ` {x \<in> set (b # bs). \<not> upload_ok net fs x}"
      and "{x \<in> set bs. upload_ok net fs x} = {x \<in> set (b # bs). upload_ok net fs x}"
      using False by auto
    then show ?thesis
      using False by (simp add: sync_image_mark_sets Cons.IH)
  qed
qed

lemma sync_images_closed:
  "sync_images net fs d =
     mark_sets (image_key ` {b \<in> set (get_unsynced_images 3 d). upload_ok net fs b})
       (img_id ` {b \<in> set (get_unsynced_images 3 d). \<not> upload_ok net fs b}) d"
  using sync_images_fold [of net fs "get_unsynced_images 3 d" "{}" "{}" d]
  by (simp add: sync_images_def mark_sets_empty)


lemma mark_readings_frame:
  "capture_events_local (fold (\<lambda>r d. mark_reading_uploaded (reading_id r) d) rs d)
     = capture_events_local d
   \<and> captured_images_local (fold (\<lambda>r d. mark_reading_uploaded (reading_id r) d) rs d)
     = captured_images_local d
   \<and> process_state (fold (\<lambda>r d. mark_reading_uploaded (reading_id r) d) rs d)
     = process_state d"
  by (induction rs arbitrary: d) (simp_all add: mark_reading_uploaded_def)

lemma sync_readings_frame:
  "capture_events_local (sync_readings cfg net d) = capture_events_local d
   \<and> captured_images_local (sync_readings cfg net d) = captured_images_local d
   \<and> process_state (sync_readings cfg net d) = process_state d"
  by (simp add: sync_readings_def Let_def mark_readings_frame)

lemma sync_images_frame:
  "capture_events_local (sync_images net fs d) = capture_events_local d
   \<and> sensor_readings_local (sync_images net fs d) = sensor_readings_local d
   \<and> process_state (sync_images net fs d) = process_state d
   \<and> map metadata_uploaded (captured_images_local (sync_images net fs d))
       = map metadata_uploaded (captured_images_local d)"
  by (simp add: sync_images_closed mark_sets_def comp_def)

lemma sync_metadata_failed:
  "\<not> upload_metadata net (map (event_meta cfg d) (get_unsynced_events 5 d))
     \<Longrightarrow> sync_metadata cfg net d = d"
  by (simp add: sync_metadata_def Let_def)

text \<open>
  Claim C4. If the batch of unsynced events is not empty and the metadata upload call
  succeeds, the metadata sub-step sets \<open>ev_uploaded\<close> on every event row whose identifier is
  in the batch and \<open>metadata_uploaded\<close> on every image row of such an event, and changes
  nothing else in the two tables. If the call fails, the sub-step leaves the store as it
  was; after the whole sync tick the event table and every \<open>metadata_uploaded\<close> flag are
  unchanged, and the query for unsynced events returns the same rows.
\<close>

theorem metadata_batch_all_or_nothing:
  "(get_unsynced_events 5 (db st) \<noteq> []
      \<and> upload_metadata net (map (event_meta cfg (db st)) (get_unsynced_events 5 (db st)))
    \<longrightarrow> capture_events_local (sync_metadata cfg net (db st))
          = map (\<lambda>e. if event_id e \<in> event_id ` set (get_unsynced_events 5 (db st))
                      then e\<lparr>ev_uploaded := 1\<rparr> else e) (capture_events_local (db st))
        \<and> captured_images_local (sync_metadata cfg net (db st))
          = map (\<lambda>r. if event_local_id r \<in> event_id ` set (get_unsynced_events 5 (db st))
                      then r\<lparr>metadata_uploaded := 1\<rparr> else r) (captured_images_local (db st)))
   \<and> (\<not> upload_metadata net (map (event_meta cfg (db st)) (get_unsynced_events 5 (db st)))
    \<longrightarrow> sync_metadata cfg net (db st) = db st
        \<and> capture_events_local (db (sync_tick cfg net st)) = capture_events_local (db st)
        \<and> map metadata_uploaded (captured_images_local (db (sync_tick cfg net st)))
          = map metadata_uploaded (captured_images_local (db st))
        \<and> get_unsynced_events 5 (db (sync_tick cfg net st)) = get_unsynced_events 5 (db st))"
proof (intro conjI impI)
  assume ok: "get_unsynced_events 5 (db st) \<noteq> []
      \<and> upload_metadata net (map (event_meta cfg (db st)) (get_unsynced_events 5 (db st)))"
  then have m: "sync_metadata cfg net (db st)
               = mark_event_set (event_id ` set (get_unsynced_events 5 (db st))) (db st)"
    by (simp add: sync_metadata_def Let_def mark_events_closed)
  show "capture_events_local (sync_metadata cfg net (db st))
          = map (\<lambda>e. if event_id e \<in> event_id ` set (get_unsynced_events 5 (db st))
                      then e\<lparr>ev_uploaded := 1\<rparr> else e) (capture_events_local (db st))"
    by (simp add: m mark_event_set_def)
  show "captured_images_local (sync_metadata cfg net (db st))
          = map (\<lambda>r. if event_local_id r \<in> event_id ` set (get_unsynced_events 5 (db st))
                      then r\<lparr>metadata_uploaded := 1\<rparr> else r) (captured_images_local (db st))"
    by (simp add: m mark_event_set_def)
next
  assume f: "\<not> upload_metadata net (map (event_meta cfg (db st)) (get_unsynced_events 5 (db st)))"
  then show same: "sync_metadata cfg net (db st) = db st"
    by (rule sync_metadata_failed)
  show ev: "capture_events_local (db (sync_tick cfg net st)) = capture_events_local (db st)"
    by (simp add: sync_tick_def sync_images_frame sync_readings_frame same)
  show "map metadata_uploaded (captured_images_local (db (sync_tick cfg net st)))
          = map metadata_uploaded (captured_images_local (db st))"
    by (simp add: sync_tick_def sync_images_frame sync_readings_frame same)
  show "get_unsynced_events 5 (db (sync_tick cfg net st)) = get_unsynced_events 5 (db st)"
    by (simp add: get_unsynced_events_def ev)
qed

lemma edge_one_batch: "get_unsynced_events 5 (db edge_one) = [event_one]"
  by (simp add: get_unsynced_events_def edge_one_def startup_def store_one_def event_one_def)

theorem metadata_batch_all_or_nothing_witness:
  "capture_events_local (sync_metadata cfg0 (uplink_ok 5) (db edge_one))
     = [event_one\<lparr>ev_uploaded := 1\<rparr>]
   \<and> captured_images_local (sync_metadata cfg0 (uplink_ok 5) (db edge_one))
     = [image_a\<lparr>metadata_uploaded := 1\<rparr>]
   \<and> sync_metadata cfg0 uplink_down (db edge_one) = db edge_one
   \<and> get_unsynced_events 5 (db (sync_tick cfg0 uplink_down edge_one)) = [event_one]"
proof -
  have ok: "get_unsynced_events 5 (db edge_one) \<noteq> []
      \<and> upload_metadata (uplink_ok 5)
          (map (event_meta cfg0 (db edge_one)) (get_unsynced_events 5 (db edge_one)))"
    by (simp add: edge_one_batch upload_metadata_def uplink_ok_def raise_for_status_def)
  have down: "\<not> upload_metadata uplink_down
          (map (event_meta cfg0 (db edge_one)) (get_unsynced_events 5 (db edge_one)))"
    by (simp add: upload_metadata_def uplink_down_def)
  from ok metadata_batch_all_or_nothing [of edge_one "uplink_ok 5" cfg0]
  have 1: "capture_events_local (sync_metadata cfg0 (uplink_ok 5) (db edge_one))
          = map (\<lambda>e. if event_id e \<in> event_id ` set (get_unsynced_events 5 (db edge_one))
                      then e\<lparr>ev_uploaded := 1\<rparr> else e) (capture_events_local (db edge_one))"
    and 2: "captured_images_local (sync_metadata cfg0 (uplink_ok 5) (db edge_one))
          = map (\<lambda>r. if event_local_id r \<in> event_id ` set (get_unsynced_events 5 (db edge_one))
                      then r\<lparr>metadata_uploaded := 1\<rparr> else r) (captured_images_local (db edge_one))"
    by blast+
  from down metadata_batch_all_or_nothing [of edge_one uplink_down cfg0]
  have 3: "sync_metadata cfg0 uplink_down (db edge_one) = db edge_one"
    and 4: "get_unsynced_events 5 (db (sync_tick cfg0 uplink_down edge_one))
              = get_unsynced_events 5 (db edge_one)"
    by blast+
  have rows: "capture_events_local (db edge_one) = [event_one]"
    "captured_images_local (db edge_one) = [image_a\<lparr>metadata_uploaded := 0\<rparr>]"
    by (simp_all add: edge_one_def startup_def store_one_def)
  have a: "capture_events_local (sync_metadata cfg0 (uplink_ok 5) (db edge_one))
     = [event_one\<lparr>ev_uploaded := 1\<rparr>]"
    unfolding 1 by (simp add: edge_one_batch rows)
  have b: "captured_images_local (sync_metadata cfg0 (uplink_ok 5) (db edge_one))
     = [image_a\<lparr>metadata_uploaded := 1\<rparr>]"
    unfolding 2 by (simp add: edge_one_batch rows) (simp add: event_one_def image_a_def)
  from a b 3 4 show ?thesis
    by (simp add: edge_one_batch)
qed


lemma unsynced_subset:
  "b \<in> set (get_unsynced_images n d) \<Longrightarrow>
     b \<in> set (captured_images_local d) \<and> metadata_uploaded b = 1 \<and> uploaded b = 0
     \<and> corrupted b = 0"
  by (auto simp: get_unsynced_images_def dest!: in_set_takeD)

lemma distinct_keys_eq:
  "distinct (map image_key rows) \<Longrightarrow> a \<in> set rows \<Longrightarrow> b \<in> set rows \<Longrightarrow>
     image_key a = image_key b \<Longrightarrow> a = b"
  by (meson distinct_map inj_onD)

lemma upload_image_iff:
  "upload_image net fs eid idx path sha \<longleftrightarrow>
     (\<exists>data code body. fs path = Some data \<and> image_reply net eid idx sha data = Response code body
        \<and> \<not> raise_for_status code)"
  by (auto simp: upload_image_def split: option.splits http_result.splits)

text \<open>
  Claim C3, as the code has it. \<^verbatim>\<open>upload_image\<close> returns \<open>True\<close> exactly when the file can
  be read and the request returns a response whose status is not an error; a file that
  cannot be read, a request that raises (any network or transport failure) and an error
  status all make it return \<open>False\<close>. In a store whose rows have distinct identifiers (none
  missing) and distinct keys, the binary sub-step turns each selected row into the same
  row with \<open>uploaded = 1\<close> when its upload returned \<open>True\<close>, and into the same row with
  \<open>corrupted = 1\<close> when it returned \<open>False\<close>, whatever the kind of failure.
\<close>

theorem failed_upload_marks_corrupted:
  assumes "distinct (map img_id (captured_images_local d))"
    and "None \<notin> set (map img_id (captured_images_local d))"
    and "distinct (map image_key (captured_images_local d))"
    and "i < length (captured_images_local d)"
    and "captured_images_local d ! i \<in> set (get_unsynced_images 3 d)"
  shows "(upload_ok net fs (captured_images_local d ! i) \<longleftrightarrow>
            (\<exists>data code body.
               fs (local_path (captured_images_local d ! i)) = Some data
               \<and> image_reply net (event_local_id (captured_images_local d ! i))
                    (image_index (captured_images_local d ! i))
                    (sha256_hex (captured_images_local d ! i)) data = Response code body
               \<and> \<not> raise_for_status code))
       \<and> (upload_ok net fs (captured_images_local d ! i) \<longrightarrow>
            captured_images_local (sync_images net fs d) ! i
              = (captured_images_local d ! i)\<lparr>uploaded := 1\<rparr>)
       \<and> (\<not> upload_ok net fs (captured_images_local d ! i) \<longrightarrow>
            captured_images_local (sync_images net fs d) ! i
              = (captured_images_local d ! i)\<lparr>corrupted := 1\<rparr>)"
proof -
  let ?rows = "captured_images_local d"
  let ?r = "?rows ! i"
  let ?batch = "get_unsynced_images 3 d"
  let ?U = "image_key ` {b \<in> set ?batch. upload_ok net fs b}"
  let ?C = "img_id ` {b \<in> set ?batch. \<not> upload_ok net fs b}"
  have rin: "?r \<in> set ?rows"
    using assms(4) by simp
  have some: "img_id ?r \<noteq> None"
    using assms(2) rin by force
  have inU: "image_key ?r \<in> ?U \<longleftrightarrow> upload_ok net fs ?r"
  proof
    assume "image_key ?r \<in> ?U"
    then obtain b where b: "b \<in> set ?batch" and ok: "upload_ok net fs b"
      and e: "image_key ?r = image_key b"
      by auto
    from b have "b \<in> set ?rows"
      using unsynced_subset by blast
    with assms(3) rin e have "?r = b"
      by (blast intro: distinct_keys_eq)
    with ok show "upload_ok net fs ?r" by simp
  next
    assume "upload_ok net fs ?r"
    with assms(5) show "image_key ?r \<in> ?U" by blast
  qed
  have inC: "img_id ?r \<in> ?C \<longleftrightarrow> \<not> upload_ok net fs ?r"
  proof
    assume "img_id ?r \<in> ?C"
    then obtain b where b: "b \<in> set ?batch" and ok: "\<not> upload_ok net fs b"
      and e: "img_id ?r = img_id b"
      by auto
    from b have "b \<in> set ?rows"
      using unsynced_subset by blast
    with assms(1) rin e have "?r = b"
      by (blast intro: distinct_ids_eq)
    with ok show "\<not> upload_ok net fs ?r" by simp
  next
    assume "\<not> upload_ok net fs ?r"
    with assms(5) show "img_id ?r \<in> ?C" by blast
  qed
  have row: "captured_images_local (sync_images net fs d) ! i
      = ?r\<lparr>uploaded := (if image_key ?r \<in> ?U then 1 else uploaded ?r),
            corrupted := (if img_id ?r \<noteq> None \<and> img_id ?r \<in> ?C then 1 else corrupted ?r)\<rparr>"
    using assms(4) by (simp add: sync_images_closed mark_sets_def)
  have 1: "upload_ok net fs ?r \<longleftrightarrow>
            (\<exists>data code body.
               fs (local_path ?r) = Some data
               \<and> image_reply net (event_local_id ?r) (image_index ?r) (sha256_hex ?r) data
                   = Response code body
               \<and> \<not> raise_for_status code)"
    unfolding upload_ok_def by (rule upload_image_iff)
  have 2: "upload_ok net fs ?r \<longrightarrow>
            captured_images_local (sync_images net fs d) ! i = ?r\<lparr>uploaded := 1\<rparr>"
    using row inU inC some by simp
  have 3: "\<not> upload_ok net fs ?r \<longrightarrow>
            captured_images_local (sync_images net fs d) ! i = ?r\<lparr>corrupted := 1\<rparr>"
    using row inU inC some by simp
  from 1 2 3 show ?thesis
    by (intro conjI)
qed

lemma edge_two_unsynced: "get_unsynced_images 3 (db edge_two) = [image_a]"
  by (simp add: get_unsynced_images_def edge_two_rows image_a_def image_b_def)

lemma edge_two_keys: "distinct (map image_key (captured_images_local (db edge_two)))"
  by (simp add: edge_two_rows image_key_def image_a_def image_b_def)

lemma edge_two_has_ids: "None \<notin> set (map img_id (captured_images_local (db edge_two)))"
  by (simp add: edge_two_rows image_a_def image_b_def)

lemma upload_down: "\<not> upload_ok uplink_down fs r"
  by (simp add: upload_ok_def upload_image_def uplink_down_def split: option.splits)

theorem failed_upload_marks_corrupted_witness:
  "captured_images_local (sync_images uplink_down (files edge_two) (db edge_two)) ! 0
     = image_a\<lparr>corrupted := 1\<rparr>"
proof -
  have len: "0 < length (captured_images_local (db edge_two))"
    by (simp add: edge_two_rows)
  have sel: "captured_images_local (db edge_two) ! 0 \<in> set (get_unsynced_images 3 (db edge_two))"
    by (simp add: edge_two_unsynced edge_two_rows)
  from failed_upload_marks_corrupted
         [OF edge_two_distinct edge_two_has_ids edge_two_keys len sel,
          of uplink_down "files edge_two"]
       upload_down
  have "captured_images_local (sync_images uplink_down (files edge_two) (db edge_two)) ! 0
          = (captured_images_local (db edge_two) ! 0)\<lparr>corrupted := 1\<rparr>"
    by blast
  then show ?thesis
    by (simp add: edge_two_rows)
qed

text \<open>
  The claim as the specification words it fails: a connection error during the binary
  upload of an image does not leave its flags unchanged, it marks the image corrupted.
\<close>

theorem transport_failure_marks_corrupted_counterexample:
  "image_reply uplink_down 1 0 ''h1'' ''aa'' = ConnectionError
   \<and> captured_images_local (db edge_two) ! 0 = image_a
   \<and> corrupted image_a = 0
   \<and> captured_images_local (db (sync_tick cfg0 uplink_down edge_two)) ! 0
       = image_a\<lparr>corrupted := 1\<rparr>"
proof -
  have events: "capture_events_local (db edge_two) = []"
    and readings: "sensor_readings_local (db edge_two) = []"
    by (simp_all add: edge_two_def startup_def store_two_def)
  have meta: "sync_metadata cfg0 uplink_down (db edge_two) = db edge_two"
    by (simp add: sync_metadata_def get_unsynced_events_def events)
  have rd: "sync_readings cfg0 uplink_down (db edge_two) = db edge_two"
    by (simp add: sync_readings_def get_sensor_readings_def readings)
  have "captured_images_local (sync_images uplink_down (files edge_two) (db edge_two)) ! 0
          = image_a\<lparr>corrupted := 1\<rparr>"
    by (simp add: sync_images_def edge_two_unsynced sync_image_def upload_down [unfolded upload_ok_def]
        mark_image_corrupted_def edge_two_rows)
       (simp add: image_a_def)
  then have "captured_images_local (db (sync_tick cfg0 uplink_down edge_two)) ! 0
          = image_a\<lparr>corrupted := 1\<rparr>"
    by (simp add: sync_tick_def meta rd)
  moreover have "image_reply uplink_down 1 0 ''h1'' ''aa'' = ConnectionError"
    by (simp add: uplink_down_def)
  moreover have "captured_images_local (db edge_two) ! 0 = image_a \<and> corrupted image_a = 0"
    by (simp add: edge_two_rows) (simp add: image_a_def)
  ultimately show ?thesis
    by simp
qed

section \<open>Capture: the rows a tick records\<close>

lemma mock_burst_result:
  "mock_burst sha256 cam env eid out_dir idxs captured fs = (fs', Inr images) \<Longrightarrow>
     images = captured @ map (mock_image sha256 cam env eid out_dir) idxs"
proof (induction idxs arbitrary: captured fs)
  case Nil
  then show ?case by simp
next
  case (Cons idx idxs)
  from Cons.prems have nf: "\<not> save_fails env (burst_path out_dir eid idx)"
    by (auto simp: Let_def split: if_splits)
  with Cons.prems have
    "mock_burst sha256 cam env eid out_dir idxs
       (captured @ [mock_image sha256 cam env eid out_dir idx])
       (fs(burst_path out_dir eid idx \<mapsto> jpeg env idx)) = (fs', Inr images)"
    by (simp add: Let_def mock_image_def)
  from Cons.IH [OF this] show ?case
    by simp
qed

lemma mock_capture_burst_result:
  "mock_capture_burst sha256 cam env eid out_dir n fs = (fs', Inr images) \<Longrightarrow>
     images = map (mock_image sha256 cam env eid out_dir) (py_range n)"
  unfolding mock_capture_burst_def by (drule mock_burst_result) simp

lemma rpi_collect_checksum:
  "img \<in> set (rpi_collect sha256 cam env eid out_dir fs idxs) \<Longrightarrow>
     \<exists>data. fs (local_path img) = Some data \<and> sha256_hex img = sha256 data
            \<and> size_bytes img = int (length data)"
  by (induction idxs) (auto simp: Let_def split: option.splits)

lemma rpi_capture_burst_checksum:
  "rpi_capture_burst sha256 cam env eid out_dir n fs = (fs', Inr images) \<Longrightarrow>
     img \<in> set images \<Longrightarrow>
     \<exists>data. fs' (local_path img) = Some data \<and> sha256_hex img = sha256 data"
  by (auto simp: rpi_capture_burst_def split: tool_status.splits dest: rpi_collect_checksum)

lemma py_range_2: "py_range 2 = [0, 1]"
  by (simp add: py_range_def upt_rec)

lemma insert_image_appends:
  "insert_image r d = Inr d' \<Longrightarrow>
     \<exists>r'. captured_images_local d' = captured_images_local d @ [r']
          \<and> r'\<lparr>img_id := None\<rparr> = r\<lparr>img_id := None\<rparr>
          \<and> capture_events_local d' = capture_events_local d
          \<and> sensor_readings_local d' = sensor_readings_local d
          \<and> process_state d' = process_state d"
  by (auto simp: insert_image_def Let_def split: if_splits option.splits)

lemma new_image_row_no_id: "(new_image_row eid img)\<lparr>img_id := None\<rparr> = new_image_row eid img"
  by (simp add: new_image_row_def)

lemma insert_images_appends:
  "insert_images eid images d = (d', err) \<Longrightarrow>
     \<exists>new. captured_images_local d' = captured_images_local d @ new
          \<and> (err = None \<longrightarrow> map (\<lambda>r. r\<lparr>img_id := None\<rparr>) new = map (new_image_row eid) images)
          \<and> (\<forall>r \<in> set new. \<exists>img \<in> set images. r\<lparr>img_id := None\<rparr> = new_image_row eid img)
          \<and> capture_events_local d' = capture_events_local d
          \<and> sensor_readings_local d' = sensor_readings_local d
          \<and> process_state d' = process_state d"
proof (induction images arbitrary: d)
  case Nil
  then show ?case by simp
next
  case (Cons img images)
  show ?case
  proof (cases "insert_image (new_image_row eid img) d")
    case (Inl e)
    with Cons.prems have "d' = d" and "err = Some e"
      by auto
    then show ?thesis by simp
  next
    case (Inr d1)
    from insert_image_appends [OF Inr] obtain r' where
      r': "captured_images_local d1 = captured_images_local d @ [r']"
      "r'\<lparr>img_id := None\<rparr> = new_image_row eid img"
      "capture_events_local d1 = capture_events_local d"
      "sensor_readings_local d1 = sensor_readings_local d"
      "process_state d1 = process_state d"
      by (auto simp: new_image_row_no_id)
    from Cons.prems Inr have "insert_images eid images d1 = (d', err)"
      by simp
    from Cons.IH [OF this] obtain new where
      new: "captured_images_local d' = captured_images_local d1 @ new"
      "err = None \<longrightarrow> map (\<lambda>r. r\<lparr>img_id := None\<rparr>) new = map (new_image_row eid) images"
      "\<forall>r \<in> set new. \<exists>img \<in> set images. r\<lparr>img_id := None\<rparr> = new_image_row eid img"
      "capture_events_local d' = capture_events_local d1"
      "sensor_readings_local d' = sensor_readings_local d1"
      "process_state d' = process_state d1"
      by blast
    have "captured_images_local d' = captured_images_local d @ (r' # new)"
      using r'(1) new(1) by simp
    moreover have "err = None \<longrightarrow>
        map (\<lambda>r. r\<lparr>img_id := None\<rparr>) (r' # new) = map (new_image_row eid) (img # images)"
      using r'(2) new(2) by simp
    moreover have "\<forall>r \<in> set (r' # new). \<exists>i \<in> set (img # images). r\<lparr>img_id := None\<rparr> = new_image_row eid i"
      using r'(2) new(3) by auto
    ultimately show ?thesis
      using r'(3-5) new(4-6) by metis
  qed
qed

lemma sensor_step_frame:
  "sensor_step env st = (st', err) \<Longrightarrow>
     files st' = files st \<and> event_counter st' = event_counter st
     \<and> edge_crate_id st' = edge_crate_id st
     \<and> capture_events_local (db st') = capture_events_local (db st)
     \<and> captured_images_local (db st') = captured_images_local (db st)
     \<and> process_state (db st') = process_state (db st)"
  by (auto simp: sensor_step_def Let_def insert_sensor_reading_def
      split: option.splits sum.splits if_splits)


lemma capture_tick_success:
  assumes "snd (capture_tick cfg env st) = None"
  shows "\<exists>st2 fs images d'.
           sensor_step env (st\<lparr>event_counter := event_counter st + 1\<rparr>) = (st2, None)
         \<and> camera env (event_counter st + 1) (image_dir cfg) (cfg_burst_size cfg) (files st2)
             = (fs, Inr images)
         \<and> insert_images (event_counter st + 1) images
              (insert_event
                 \<lparr>event_id = event_counter st + 1, ev_crate_id = edge_crate_id st2,
                  camera_name =
                    (case extra_camera_name cfg of None \<Rightarrow> ''camera_0'' | Some c \<Rightarrow> c),
                  ev_captured_at = clock env, burst_size = int (length images),
                  ev_uploaded = 0\<rparr> (db st2)) = (d', None)
         \<and> fst (capture_tick cfg env st) = st2\<lparr>files := fs, db := d'\<rparr>"
  using assms
  by (auto simp: capture_tick_def camera_step_def Let_def
      split: prod.splits option.splits sum.splits)

text \<open>
  Claim C8. A capture tick that ends without an exception called the camera, which
  returned a list of artifacts; the tick appended one event row, whose \<open>burst_size\<close> is the
  length of that list, and one image row for each artifact, in order, each the row
  \<^verbatim>\<open>capture_loop\<close> builds from the artifact with an identifier given by the store. With the
  mock camera and a configured burst size of 2, the new image rows have the indices 0 and
  1 and the event row has \<open>burst_size = 2\<close>.
\<close>

theorem capture_records_returned_images:
  assumes "snd (capture_tick cfg env st) = None"
  shows "\<exists>fs images new.
           camera env (event_counter st + 1) (image_dir cfg) (cfg_burst_size cfg) (files st)
             = (fs, Inr images)
         \<and> capture_events_local (db (fst (capture_tick cfg env st)))
             = capture_events_local (db st) @
               [\<lparr>event_id = event_counter st + 1, ev_crate_id = edge_crate_id st,
                 camera_name =
                   (case extra_camera_name cfg of None \<Rightarrow> ''camera_0'' | Some c \<Rightarrow> c),
                 ev_captured_at = clock env, burst_size = int (length images),
                 ev_uploaded = 0\<rparr>]
         \<and> captured_images_local (db (fst (capture_tick cfg env st)))
             = captured_images_local (db st) @ new
         \<and> map (\<lambda>r. r\<lparr>img_id := None\<rparr>) new
             = map (new_image_row (event_counter st + 1)) images
         \<and> (cfg_burst_size cfg = 2
              \<and> (\<exists>sha256 world. camera env = mock_capture_burst sha256 MockCamera world)
            \<longrightarrow> map image_index new = [0, 1] \<and> int (length images) = 2)"
proof -
  let ?eid = "event_counter st + 1"
  from capture_tick_success [OF assms] obtain st2 fs images d' where
    s: "sensor_step env (st\<lparr>event_counter := ?eid\<rparr>) = (st2, None)"
    and c: "camera env ?eid (image_dir cfg) (cfg_burst_size cfg) (files st2) = (fs, Inr images)"
    and i: "insert_images ?eid images
              (insert_event
                 \<lparr>event_id = ?eid, ev_crate_id = edge_crate_id st2,
                  camera_name =
                    (case extra_camera_name cfg of None \<Rightarrow> ''camera_0'' | Some c \<Rightarrow> c),
                  ev_captured_at = clock env, burst_size = int (length images),
                  ev_uploaded = 0\<rparr> (db st2)) = (d', None)"
    and t: "fst (capture_tick cfg env st) = st2\<lparr>files := fs, db := d'\<rparr>"
    by blast
  from sensor_step_frame [OF s] have f: "files st2 = files st" "edge_crate_id st2 = edge_crate_id st"
    "capture_events_local (db st2) = capture_events_local (db st)"
    "captured_images_local (db st2) = captured_images_local (db st)"
    by simp_all
  from insert_images_appends [OF i] obtain new where
    n: "captured_images_local d' = captured_images_local (db st) @ new"
    "map (\<lambda>r. r\<lparr>img_id := None\<rparr>) new = map (new_image_row ?eid) images"
    "capture_events_local d'
       = capture_events_local (db st) @
               [\<lparr>event_id = ?eid, ev_crate_id = edge_crate_id st,
                 camera_name =
                   (case extra_camera_name cfg of None \<Rightarrow> ''camera_0'' | Some c \<Rightarrow> c),
                 ev_captured_at = clock env, burst_size = int (length images),
                 ev_uploaded = 0\<rparr>]"
    by (auto simp: insert_event_def f)
  have idx: "map image_index new = map image_index images"
  proof -
    have "map image_index new = map image_index (map (\<lambda>r. r\<lparr>img_id := None\<rparr>) new)"
      by simp
    also have "\<dots> = map image_index (map (new_image_row ?eid) images)"
      by (simp only: n(2))
    also have "\<dots> = map image_index images"
      by (simp add: new_image_row_def)
    finally show ?thesis .
  qed
  have mock: "cfg_burst_size cfg = 2
              \<and> (\<exists>sha256 world. camera env = mock_capture_burst sha256 MockCamera world)
            \<longrightarrow> map image_index new = [0, 1] \<and> int (length images) = 2"
  proof
    assume a: "cfg_burst_size cfg = 2
              \<and> (\<exists>sha256 world. camera env = mock_capture_burst sha256 MockCamera world)"
    then obtain sha256 world where "camera env = mock_capture_burst sha256 MockCamera world"
      by blast
    with c a f(1) have "mock_capture_burst sha256 MockCamera world ?eid (image_dir cfg) 2 (files st)
                          = (fs, Inr images)"
      by simp
    then have "images = map (mock_image sha256 MockCamera world ?eid (image_dir cfg)) (py_range 2)"
      by (rule mock_capture_burst_result)
    then have "map image_index images = [0, 1]" and "int (length images) = 2"
      by (simp_all add: py_range_2 mock_image_def)
    with idx show "map image_index new = [0, 1] \<and> int (length images) = 2"
      by simp
  qed
  from c f(1) have c': "camera env ?eid (image_dir cfg) (cfg_burst_size cfg) (files st)
             = (fs, Inr images)"
    by simp
  from c' n mock t show ?thesis
    by auto
qed

lemma fmt_one: "fmt_0d 8 1 = ''00000001''" "fmt_0d 3 0 = ''000''" "fmt_0d 3 1 = ''001''"
  by code_simp+

lemma mock_paths:
  "burst_path ''images'' 1 0 = ''images/00000001_000.jpg''"
  "burst_path ''images'' 1 1 = ''images/00000001_001.jpg''"
  by (simp_all add: burst_path_def fmt_one)

lemma mock_capture_run:
  "capture_tick cfg0 capture_env_mock fresh_edge =
     (\<lparr>event_counter = 1, reading_counter = 0, edge_crate_id = 1,
       db = \<lparr>capture_events_local =
               [\<lparr>event_id = 1, ev_crate_id = 1, camera_name = ''camera_0'',
                 ev_captured_at = 100, burst_size = 2, ev_uploaded = 0\<rparr>],
             captured_images_local =
               [\<lparr>image_index = 0, local_path = ''images/00000001_000.jpg'', size_bytes = 2,
                 sha256_hex = ''haa'', width_px = 640, height_px = 480, format = ''jpg'',
                 captured_at = 100, img_id = Some 1, event_local_id = 1,
                 metadata_uploaded = 0, uploaded = 0, local_exists = 1, corrupted = 0\<rparr>,
                \<lparr>image_index = 1, local_path = ''images/00000001_001.jpg'', size_bytes = 2,
                 sha256_hex = ''hbb'', width_px = 640, height_px = 480, format = ''jpg'',
                 captured_at = 100, img_id = Some 2, event_local_id = 1,
                 metadata_uploaded = 0, uploaded = 0, local_exists = 1, corrupted = 0\<rparr>],
             sensor_readings_local = [], process_state = Map.empty\<rparr>,
       files = [''images/00000001_000.jpg'' \<mapsto> ''aa'', ''images/00000001_001.jpg'' \<mapsto> ''bb'']\<rparr>,
      None)"
  by (simp add: capture_tick_def sensor_step_def camera_step_def capture_env_mock_def
      fresh_edge_def startup_def empty_database_def get_max_id_def max_id_def cfg0_def
      mock_capture_burst_def py_range_2 mock_paths mock_world_def MockCamera_def test_digest_def
      insert_event_def insert_image_def new_image_row_def image_key_def next_img_id_def Let_def)

theorem capture_records_returned_images_witness:
  "snd (capture_tick cfg0 capture_env_mock fresh_edge) = None
   \<and> map burst_size (capture_events_local (db (fst (capture_tick cfg0 capture_env_mock fresh_edge))))
       = [2]
   \<and> map image_index (captured_images_local (db (fst (capture_tick cfg0 capture_env_mock fresh_edge))))
       = [0, 1]"
proof -
  have ok: "snd (capture_tick cfg0 capture_env_mock fresh_edge) = None"
    by (simp add: mock_capture_run)
  have m: "cfg_burst_size cfg0 = 2
           \<and> (\<exists>sha256 world. camera capture_env_mock = mock_capture_burst sha256 MockCamera world)"
    by (auto simp: cfg0_def capture_env_mock_def)
  have e: "captured_images_local (db fresh_edge) = []"
    by (simp add: fresh_edge_def startup_def empty_database_def)
  from capture_records_returned_images [OF ok] m e
  have "map image_index
          (captured_images_local (db (fst (capture_tick cfg0 capture_env_mock fresh_edge))))
        = [0, 1]"
    by auto
  moreover have "map burst_size
      (capture_events_local (db (fst (capture_tick cfg0 capture_env_mock fresh_edge)))) = [2]"
    by (simp add: mock_capture_run)
  ultimately show ?thesis
    using ok by simp
qed


lemma capture_tick_images:
  "\<exists>new. captured_images_local (db (fst (capture_tick cfg env st)))
            = captured_images_local (db st) @ new
        \<and> (\<forall>r \<in> set new. \<exists>fs images img.
              camera env (event_counter st + 1) (image_dir cfg) (cfg_burst_size cfg) (files st)
                = (fs, Inr images)
              \<and> img \<in> set images
              \<and> r\<lparr>img_id := None\<rparr> = new_image_row (event_counter st + 1) img)"
proof -
  let ?eid = "event_counter st + 1"
  obtain st2 e1 where s: "sensor_step env (st\<lparr>event_counter := ?eid\<rparr>) = (st2, e1)"
    by (cases "sensor_step env (st\<lparr>event_counter := ?eid\<rparr>)")
  from sensor_step_frame [OF s] have f: "files st2 = files st"
    "captured_images_local (db st2) = captured_images_local (db st)"
    by simp_all
  show ?thesis
  proof (cases e1)
    case (Some e)
    with s f have "captured_images_local (db (fst (capture_tick cfg env st)))
                     = captured_images_local (db st) @ []"
      by (simp add: capture_tick_def Let_def)
    then show ?thesis by fastforce
  next
    case None
    obtain fs res where c:
      "camera env ?eid (image_dir cfg) (cfg_burst_size cfg) (files st) = (fs, res)"
      by (cases "camera env ?eid (image_dir cfg) (cfg_burst_size cfg) (files st)")
    show ?thesis
    proof (cases res)
      case (Inl e)
      with s None c f have "captured_images_local (db (fst (capture_tick cfg env st)))
                     = captured_images_local (db st) @ []"
        by (simp add: capture_tick_def camera_step_def Let_def)
      then show ?thesis by fastforce
    next
      case (Inr images)
      let ?d = "insert_event
                 \<lparr>event_id = ?eid, ev_crate_id = edge_crate_id st2,
                  camera_name =
                    (case extra_camera_name cfg of None \<Rightarrow> ''camera_0'' | Some c \<Rightarrow> c),
                  ev_captured_at = clock env, burst_size = int (length images),
                  ev_uploaded = 0\<rparr> (db st2)"
      obtain d' err where i: "insert_images ?eid images ?d = (d', err)"
        by (cases "insert_images ?eid images ?d")
      from insert_images_appends [OF i] obtain new where
        n: "captured_images_local d' = captured_images_local ?d @ new"
        "\<forall>r \<in> set new. \<exists>img \<in> set images. r\<lparr>img_id := None\<rparr> = new_image_row ?eid img"
        by blast
      have "captured_images_local (db (fst (capture_tick cfg env st))) = captured_images_local d'"
        using s None c Inr i f by (simp add: capture_tick_def camera_step_def Let_def)
      then have "captured_images_local (db (fst (capture_tick cfg env st)))
                   = captured_images_local (db st) @ new"
        using n(1) f by (simp add: insert_event_def)
      with n(2) c Inr show ?thesis
        by blast
    qed
  qed
qed

lemma heartbeat_tick_frame:
  "capture_events_local (db (heartbeat_tick net st)) = capture_events_local (db st)
   \<and> captured_images_local (db (heartbeat_tick net st)) = captured_images_local (db st)
   \<and> sensor_readings_local (db (heartbeat_tick net st)) = sensor_readings_local (db st)
   \<and> files (heartbeat_tick net st) = files st
   \<and> event_counter (heartbeat_tick net st) = event_counter st
   \<and> reading_counter (heartbeat_tick net st) = reading_counter st"
  by (simp add: heartbeat_tick_def set_state_value_def Let_def split: option.splits)

lemma sync_metadata_cases:
  "sync_metadata cfg net d = d
   \<or> sync_metadata cfg net d = mark_event_set (event_id ` set (get_unsynced_events 5 d)) d"
  by (simp add: sync_metadata_def Let_def mark_events_closed)

lemma cleanup_tick_cases:
  "cleanup_tick cfg env st = st
   \<or> (\<exists>D fs. cleanup_tick cfg env st = st\<lparr>db := delete_ids D (db st), files := fs\<rparr>)"
proof (cases "get_state_value watermark_key (db st)")
  case None
  then show ?thesis by (simp add: cleanup_tick_def)
next
  case (Some s)
  show ?thesis
  proof (cases "py_int s")
    case None
    with Some show ?thesis by (simp add: cleanup_tick_def)
  next
    case (Some w)
    with \<open>get_state_value watermark_key (db st) = Some s\<close> show ?thesis
      using cleanup_tick_closed by blast
  qed
qed

lemma row_fixed_mark_event_set:
  "map row_fixed (captured_images_local (mark_event_set E d))
     = map row_fixed (captured_images_local d)"
  by (simp add: mark_event_set_def row_fixed_def)

lemma row_fixed_mark_sets:
  "map row_fixed (captured_images_local (mark_sets U C d))
     = map row_fixed (captured_images_local d)"
  by (simp add: mark_sets_def row_fixed_def comp_def)

lemma row_fixed_delete_ids:
  "map row_fixed (captured_images_local (delete_ids D d))
     = map row_fixed (captured_images_local d)"
  by (simp add: delete_ids_def row_fixed_def)

lemma row_fixed_sync_tick:
  "map row_fixed (captured_images_local (db (sync_tick cfg net st)))
     = map row_fixed (captured_images_local (db st))"
proof -
  have "map row_fixed (captured_images_local (sync_metadata cfg net (db st)))
          = map row_fixed (captured_images_local (db st))"
    using sync_metadata_cases [of cfg net "db st"] by (auto simp: row_fixed_mark_event_set)
  then show ?thesis
    by (simp add: sync_tick_def sync_images_closed row_fixed_mark_sets sync_readings_frame)
qed

lemma row_fixed_cleanup_tick:
  "map row_fixed (captured_images_local (db (cleanup_tick cfg env st)))
     = map row_fixed (captured_images_local (db st))"
  using cleanup_tick_cases [of cfg env st] by (auto simp: row_fixed_delete_ids)

lemma row_fixed_step:
  "\<exists>new. map row_fixed (captured_images_local (db (step cfg t st)))
            = map row_fixed (captured_images_local (db st)) @ new"
proof (cases t)
  case (Capture env)
  from capture_tick_images [of cfg env st] obtain new where
    "captured_images_local (db (fst (capture_tick cfg env st)))
       = captured_images_local (db st) @ new"
    by blast
  with Capture show ?thesis by simp
next
  case (Heartbeat net)
  then show ?thesis by (simp add: heartbeat_tick_frame)
next
  case (Sync net)
  then show ?thesis by (simp add: row_fixed_sync_tick)
next
  case (Cleanup env)
  then show ?thesis by (simp add: row_fixed_cleanup_tick)
next
  case Restart
  then show ?thesis by (simp add: startup_def)
qed

lemma row_fixed_run:
  "\<exists>new. map row_fixed (captured_images_local (db (run cfg ticks st)))
            = map row_fixed (captured_images_local (db st)) @ new"
  unfolding run_def
proof (induction ticks arbitrary: st)
  case Nil
  show ?case by simp
next
  case (Cons t ticks)
  from row_fixed_step [of cfg t st] obtain n1 where
    1: "map row_fixed (captured_images_local (db (step cfg t st)))
          = map row_fixed (captured_images_local (db st)) @ n1"
    by blast
  from Cons.IH [of "step cfg t st"] obtain n2 where
    2: "map row_fixed (captured_images_local (db (fold (step cfg) ticks (step cfg t st))))
          = map row_fixed (captured_images_local (db (step cfg t st))) @ n2"
    by blast
  from 1 2 show ?case by simp
qed

section \<open>Checksums\<close>

lemma digits_value_snoc:
  "digits_value (s @ [c]) = digits_value s * 10 + (of_char c - 48)"
  by (simp add: digits_value_def)

lemma digits_value_zeros:
  "fold (\<lambda>c a. a * 10 + (of_char c - 48)) (replicate k CHR ''0'') (0::nat) = 0"
  by (induction k) simp_all

lemma digits_value_zero_pad: "digits_value (zero_pad w s) = digits_value s"
  by (simp only: digits_value_def zero_pad_def fold_append comp_apply digits_value_zeros)

lemma digits_value_str_nat: "digits_value (str_nat n) = n"
proof (induction n rule: str_nat.induct)
  case (1 n)
  show ?case
  proof (cases "n < 10")
    case True
    then have "str_nat n = [char_of (48 + n)]"
      by (simp add: str_nat.simps)
    with True show ?thesis
      by (simp add: digits_value_def)
  next
    case False
    then have s: "str_nat n = str_nat (n div 10) @ [char_of (48 + n mod 10)]"
      by (subst str_nat.simps) simp
    have "(48 + n mod 10) mod 256 = 48 + n mod 10"
      by simp
    with False "1.IH" show ?thesis
      by (simp add: s digits_value_snoc)
  qed
qed

lemma fmt_0d_value: "0 \<le> n \<Longrightarrow> digits_value (fmt_0d w n) = nat n"
  by (simp add: fmt_0d_def digits_value_zero_pad digits_value_str_nat)

lemma burst_path_inj:
  assumes "burst_path out_dir eid i = burst_path out_dir eid j" and "0 \<le> i" and "0 \<le> j"
  shows "i = j"
proof -
  from assms(1) have "fmt_0d 3 i = fmt_0d 3 j"
    by (simp add: burst_path_def)
  then have "digits_value (fmt_0d 3 i) = digits_value (fmt_0d 3 j)"
    by simp
  with assms(2,3) show ?thesis
    by (simp add: fmt_0d_value)
qed

lemma py_range_nonneg: "idx \<in> set (py_range n) \<Longrightarrow> 0 \<le> idx"
  by (auto simp: py_range_def)

lemma mock_burst_files:
  "mock_burst sha256 cam env eid out_dir idxs captured fs = (fs', Inr images) \<Longrightarrow>
     fs' = fold (\<lambda>idx f. f(burst_path out_dir eid idx \<mapsto> jpeg env idx)) idxs fs"
proof (induction idxs arbitrary: captured fs)
  case Nil
  then show ?case by simp
next
  case (Cons idx idxs)
  from Cons.prems have nf: "\<not> save_fails env (burst_path out_dir eid idx)"
    by (auto simp: Let_def split: if_splits)
  with Cons.prems have
    "mock_burst sha256 cam env eid out_dir idxs
       (captured @ [mock_image sha256 cam env eid out_dir idx])
       (fs(burst_path out_dir eid idx \<mapsto> jpeg env idx)) = (fs', Inr images)"
    by (simp add: Let_def mock_image_def)
  from Cons.IH [OF this] show ?case
    by simp
qed

lemma fold_writes_lookup:
  assumes "\<forall>j \<in> set idxs. p j = p i \<longrightarrow> j = i"
    and "i \<in> set idxs \<or> fs (p i) = Some (v i)"
  shows "fold (\<lambda>idx f. f(p idx \<mapsto> v idx)) idxs fs (p i) = Some (v i)"
  using assms
proof (induction idxs arbitrary: fs)
  case Nil
  then show ?case by simp
next
  case (Cons x xs)
  have "i \<in> set xs \<or> (fs(p x \<mapsto> v x)) (p i) = Some (v i)"
    using Cons.prems by (cases "x = i") auto
  moreover have "\<forall>j \<in> set xs. p j = p i \<longrightarrow> j = i"
    using Cons.prems(1) by simp
  ultimately have "fold (\<lambda>idx f. f(p idx \<mapsto> v idx)) xs (fs(p x \<mapsto> v x)) (p i) = Some (v i)"
    by (rule Cons.IH [rotated])
  then show ?case by (simp only: fold_simps)
qed

lemma mock_burst_traced_untraced:
  "(case mock_burst_traced sha256 cam env eid out_dir idxs captured fs of
      (fs', res, calls) \<Rightarrow> (fs', res))
     = mock_burst sha256 cam env eid out_dir idxs captured fs"
proof (induction idxs arbitrary: captured fs)
  case Nil
  show ?case by simp
next
  case (Cons idx idxs)
  show ?case
  proof (cases "save_fails env (burst_path out_dir eid idx)")
    case True
    then show ?thesis by simp
  next
    case False
    let ?c = "captured @
                [\<lparr>image_index = idx, local_path = burst_path out_dir eid idx,
                  size_bytes = int (length (jpeg env idx)), sha256_hex = sha256 (jpeg env idx),
                  width_px = mock_width cam, height_px = mock_height cam, format = ''jpg'',
                  captured_at = mock_now env\<rparr>]"
    let ?fs = "fs(burst_path out_dir eid idx \<mapsto> jpeg env idx)"
    obtain f r c where t: "mock_burst_traced sha256 cam env eid out_dir idxs ?c ?fs = (f, r, c)"
      by (cases "mock_burst_traced sha256 cam env eid out_dir idxs ?c ?fs")
    with Cons.IH [of ?c ?fs] have u: "mock_burst sha256 cam env eid out_dir idxs ?c ?fs = (f, r)"
      by (simp del: fun_upd_apply)
    from False t have "mock_burst_traced sha256 cam env eid out_dir (idx # idxs) captured fs
                         = (f, r, burst_path out_dir eid idx # c)"
      by (simp add: Let_def fun_upd_same del: fun_upd_apply)
    moreover from False u have "mock_burst sha256 cam env eid out_dir (idx # idxs) captured fs
                                  = (f, r)"
      by (simp add: Let_def fun_upd_same del: fun_upd_apply)
    ultimately show ?thesis
      by simp
  qed
qed

lemma mock_burst_traced_calls:
  "mock_burst_traced sha256 cam env eid out_dir idxs captured fs = (fs', Inr images, calls) \<Longrightarrow>
     calls = map (burst_path out_dir eid) idxs"
proof (induction idxs arbitrary: captured fs calls)
  case Nil
  then show ?case by simp
next
  case (Cons idx idxs)
  from Cons.prems have nf: "\<not> save_fails env (burst_path out_dir eid idx)"
    by (auto simp: Let_def split: if_splits)
  let ?c = "captured @
                [\<lparr>image_index = idx, local_path = burst_path out_dir eid idx,
                  size_bytes = int (length (jpeg env idx)), sha256_hex = sha256 (jpeg env idx),
                  width_px = mock_width cam, height_px = mock_height cam, format = ''jpg'',
                  captured_at = mock_now env\<rparr>]"
  let ?fs = "fs(burst_path out_dir eid idx \<mapsto> jpeg env idx)"
  obtain f r c where t: "mock_burst_traced sha256 cam env eid out_dir idxs ?c ?fs = (f, r, c)"
    by (cases "mock_burst_traced sha256 cam env eid out_dir idxs ?c ?fs")
  with Cons.prems nf have e: "f = fs'" "r = Inr images" "calls = burst_path out_dir eid idx # c"
    by (simp_all add: Let_def fun_upd_same del: fun_upd_apply)
  with t have "mock_burst_traced sha256 cam env eid out_dir idxs ?c ?fs = (fs', Inr images, c)"
    by simp
  then have "c = map (burst_path out_dir eid) idxs"
    by (rule Cons.IH)
  with e(3) show ?case
    by simp
qed

lemma rpi_collect_traced_untraced:
  "fst (rpi_collect_traced sha256 cam env eid out_dir fs idxs)
     = rpi_collect sha256 cam env eid out_dir fs idxs
   \<and> snd (rpi_collect_traced sha256 cam env eid out_dir fs idxs)
     = map local_path (rpi_collect sha256 cam env eid out_dir fs idxs)"
  by (induction idxs) (auto simp: Let_def split: option.splits prod.splits)

lemma prefix_nth:
  assumes "map f ys = map f xs @ zs" and "i < length xs"
  shows "i < length ys \<and> f (ys ! i) = f (xs ! i)"
proof -
  from assms(1) have "length (map f ys) = length (map f xs @ zs)"
    by simp
  with assms(2) have l: "i < length ys"
    by simp
  then have "f (ys ! i) = map f ys ! i"
    by simp
  also have "\<dots> = (map f xs @ zs) ! i"
    by (simp only: assms(1))
  also have "\<dots> = f (xs ! i)"
    using assms(2) by (simp add: nth_append)
  finally show ?thesis
    using l by simp
qed

lemma new_rows_fields:
  assumes "map (\<lambda>r. r\<lparr>img_id := None\<rparr>) new = map (new_image_row eid) images"
  shows "map image_index new = map image_index images"
    and "map local_path new = map local_path images"
    and "map sha256_hex new = map sha256_hex images"
proof -
  have "map image_index new = map image_index (map (\<lambda>r. r\<lparr>img_id := None\<rparr>) new)"
    by simp
  also have "\<dots> = map image_index (map (new_image_row eid) images)"
    by (simp only: assms)
  finally show "map image_index new = map image_index images"
    by (simp add: new_image_row_def)
  have "map local_path new = map local_path (map (\<lambda>r. r\<lparr>img_id := None\<rparr>) new)"
    by simp
  also have "\<dots> = map local_path (map (new_image_row eid) images)"
    by (simp only: assms)
  finally show "map local_path new = map local_path images"
    by (simp add: new_image_row_def)
  have "map sha256_hex new = map sha256_hex (map (\<lambda>r. r\<lparr>img_id := None\<rparr>) new)"
    by simp
  also have "\<dots> = map sha256_hex (map (new_image_row eid) images)"
    by (simp only: assms)
  finally show "map sha256_hex new = map sha256_hex images"
    by (simp add: new_image_row_def)
qed


lemma mock_capture_stored:
  assumes "mock_capture_burst hexdigest mcam world eid out_dir n fs = (fs', Inr images)"
  shows "map image_index images = py_range n"
    and "\<forall>img \<in> set images.
           fs' (local_path img) = Some (jpeg world (image_index img))
           \<and> sha256_hex img = hexdigest (jpeg world (image_index img))"
    and "snd (snd (mock_burst_traced hexdigest mcam world eid out_dir (py_range n) [] fs))
           = map local_path images"
proof -
  from assms have im: "images = map (mock_image hexdigest mcam world eid out_dir) (py_range n)"
    by (rule mock_capture_burst_result)
  then show "map image_index images = py_range n"
    by (simp add: mock_image_def comp_def)
  from assms have fs': "fs' = fold (\<lambda>idx f. f(burst_path out_dir eid idx \<mapsto> jpeg world idx))
                               (py_range n) fs"
    unfolding mock_capture_burst_def by (rule mock_burst_files)
  show "\<forall>img \<in> set images.
           fs' (local_path img) = Some (jpeg world (image_index img))
           \<and> sha256_hex img = hexdigest (jpeg world (image_index img))"
  proof
    fix img assume "img \<in> set images"
    with im obtain idx where idx: "idx \<in> set (py_range n)"
      and img: "img = mock_image hexdigest mcam world eid out_dir idx"
      by auto
    have "\<forall>j \<in> set (py_range n). burst_path out_dir eid j = burst_path out_dir eid idx \<longrightarrow> j = idx"
      using idx by (blast intro: burst_path_inj py_range_nonneg)
    then have "fold (\<lambda>idx f. f(burst_path out_dir eid idx \<mapsto> jpeg world idx)) (py_range n) fs
                 (burst_path out_dir eid idx) = Some (jpeg world idx)"
      using idx by (intro fold_writes_lookup) simp_all
    then show "fs' (local_path img) = Some (jpeg world (image_index img))
           \<and> sha256_hex img = hexdigest (jpeg world (image_index img))"
      by (simp add: fs' img mock_image_def)
  qed
  obtain f r c where t:
    "mock_burst_traced hexdigest mcam world eid out_dir (py_range n) [] fs = (f, r, c)"
    by (cases "mock_burst_traced hexdigest mcam world eid out_dir (py_range n) [] fs")
  with mock_burst_traced_untraced [of hexdigest mcam world eid out_dir "py_range n" "[]" fs] assms
  have "f = fs'" "r = Inr images"
    by (simp_all add: mock_capture_burst_def)
  with t have "c = map (burst_path out_dir eid) (py_range n)"
    by (auto dest: mock_burst_traced_calls)
  with t im show "snd (snd (mock_burst_traced hexdigest mcam world eid out_dir (py_range n) [] fs))
           = map local_path images"
    by (simp add: mock_image_def comp_def)
qed

lemma rpi_capture_stored:
  assumes "rpi_capture_burst hexdigest rcam rworld eid out_dir n fs = (fs', Inr images)"
  shows "\<forall>img \<in> set images.
           \<exists>data. fs' (local_path img) = Some data \<and> sha256_hex img = hexdigest data"
    and "snd (rpi_collect_traced hexdigest rcam rworld eid out_dir (tool_files rworld) (py_range n))
           = map local_path images"
proof -
  show "\<forall>img \<in> set images.
           \<exists>data. fs' (local_path img) = Some data \<and> sha256_hex img = hexdigest data"
    using assms rpi_capture_burst_checksum by blast
  from assms have "images = rpi_collect hexdigest rcam rworld eid out_dir (tool_files rworld) (py_range n)"
    by (auto simp: rpi_capture_burst_def split: tool_status.splits)
  then show "snd (rpi_collect_traced hexdigest rcam rworld eid out_dir (tool_files rworld) (py_range n))
           = map local_path images"
    by (simp add: rpi_collect_traced_untraced)
qed

lemma capture_tick_rows:
  "\<exists>new. captured_images_local (db (fst (capture_tick cfg env st)))
            = captured_images_local (db st) @ new
        \<and> (new \<noteq> [] \<longrightarrow>
             (\<exists>fs images.
                camera env (event_counter st + 1) (image_dir cfg) (cfg_burst_size cfg) (files st)
                  = (fs, Inr images)
                \<and> files (fst (capture_tick cfg env st)) = fs
                \<and> (\<forall>r \<in> set new. \<exists>img \<in> set images.
                      r\<lparr>img_id := None\<rparr> = new_image_row (event_counter st + 1) img)))"
proof -
  let ?eid = "event_counter st + 1"
  obtain st2 e1 where s: "sensor_step env (st\<lparr>event_counter := ?eid\<rparr>) = (st2, e1)"
    by (cases "sensor_step env (st\<lparr>event_counter := ?eid\<rparr>)")
  from sensor_step_frame [OF s] have f: "files st2 = files st"
    "captured_images_local (db st2) = captured_images_local (db st)"
    by simp_all
  show ?thesis
  proof (cases e1)
    case (Some e)
    with s f have "captured_images_local (db (fst (capture_tick cfg env st)))
                     = captured_images_local (db st) @ []"
      by (simp add: capture_tick_def Let_def)
    then show ?thesis by fastforce
  next
    case None
    obtain fs res where c:
      "camera env ?eid (image_dir cfg) (cfg_burst_size cfg) (files st) = (fs, res)"
      by (cases "camera env ?eid (image_dir cfg) (cfg_burst_size cfg) (files st)")
    show ?thesis
    proof (cases res)
      case (Inl e)
      with s None c f have "captured_images_local (db (fst (capture_tick cfg env st)))
                     = captured_images_local (db st) @ []"
        by (simp add: capture_tick_def camera_step_def Let_def)
      then show ?thesis by fastforce
    next
      case (Inr images)
      let ?d = "insert_event
                 \<lparr>event_id = ?eid, ev_crate_id = edge_crate_id st2,
                  camera_name =
                    (case extra_camera_name cfg of None \<Rightarrow> ''camera_0'' | Some c \<Rightarrow> c),
                  ev_captured_at = clock env, burst_size = int (length images),
                  ev_uploaded = 0\<rparr> (db st2)"
      obtain d' err where i: "insert_images ?eid images ?d = (d', err)"
        by (cases "insert_images ?eid images ?d")
      from insert_images_appends [OF i] obtain new where
        n: "captured_images_local d' = captured_images_local ?d @ new"
        "\<forall>r \<in> set new. \<exists>img \<in> set images. r\<lparr>img_id := None\<rparr> = new_image_row ?eid img"
        by blast
      have t: "fst (capture_tick cfg env st) = st2\<lparr>files := fs, db := d'\<rparr>"
        using s None c Inr i f by (simp add: capture_tick_def camera_step_def Let_def)
      then have "captured_images_local (db (fst (capture_tick cfg env st)))
                   = captured_images_local (db st) @ new"
        using n(1) f by (simp add: insert_event_def)
      moreover from t have "files (fst (capture_tick cfg env st)) = fs"
        by simp
      ultimately show ?thesis
        using n(2) c Inr by blast
    qed
  qed
qed

text \<open>
  Claim C6, with the hash function \<^verbatim>\<open>hashlib.sha256(...).hexdigest()\<close> as the argument
  \<open>hexdigest\<close> of the camera. A capture tick appends the rows \<open>new\<close> to the image table.

  With the mock camera, after the tick the file at the path of each new row holds the
  bytes the camera wrote for the row's index, and the row's checksum is the hash of exactly
  these bytes. If the tick ended without an exception, there is one new row for each index
  of \<^verbatim>\<open>range(burst_size)\<close>, and the camera called \<^verbatim>\<open>_compute_sha256\<close> once for each new
  row, on the row's path, and on nothing else. With the Raspberry Pi camera the same holds
  for the bytes of the file found at the row's path.

  Whatever ticks of the four loops and restarts follow, every row of the table keeps its
  position, identifier, event, index, path and checksum: the stored checksum stays the hash
  of the bytes written at capture, also once the file has been uploaded, removed or
  overwritten. (Only the cameras are given the hash function; no other loop can compute a
  checksum.)
\<close>

theorem checksum_fixed_at_capture:
  "\<exists>new.
     captured_images_local (db (fst (capture_tick cfg env st)))
       = captured_images_local (db st) @ new
   \<and> (\<forall>hexdigest mcam world.
         camera env = mock_capture_burst hexdigest mcam world \<longrightarrow>
           (\<forall>r \<in> set new.
               files (fst (capture_tick cfg env st)) (local_path r)
                 = Some (jpeg world (image_index r))
               \<and> sha256_hex r = hexdigest (jpeg world (image_index r)))
         \<and> (snd (capture_tick cfg env st) = None \<longrightarrow>
               map image_index new = py_range (cfg_burst_size cfg)
             \<and> snd (snd (mock_burst_traced hexdigest mcam world (event_counter st + 1)
                            (image_dir cfg) (py_range (cfg_burst_size cfg)) [] (files st)))
                 = map local_path new))
   \<and> (\<forall>hexdigest rcam rworld.
         camera env = rpi_capture_burst hexdigest rcam rworld \<longrightarrow>
           (\<forall>r \<in> set new.
               \<exists>data. files (fst (capture_tick cfg env st)) (local_path r) = Some data
                      \<and> sha256_hex r = hexdigest data)
         \<and> (snd (capture_tick cfg env st) = None \<longrightarrow>
               snd (rpi_collect_traced hexdigest rcam rworld (event_counter st + 1)
                      (image_dir cfg) (tool_files rworld) (py_range (cfg_burst_size cfg)))
                 = map local_path new))
   \<and> (\<forall>ticks i.
         i < length (captured_images_local (db st) @ new) \<longrightarrow>
           i < length (captured_images_local
                         (db (run cfg ticks (fst (capture_tick cfg env st)))))
         \<and> row_fixed (captured_images_local
                         (db (run cfg ticks (fst (capture_tick cfg env st)))) ! i)
             = row_fixed ((captured_images_local (db st) @ new) ! i))"
proof -
  let ?eid = "event_counter st + 1"
  let ?st1 = "fst (capture_tick cfg env st)"
  from capture_tick_rows [of cfg env st] obtain new where
    rows1: "captured_images_local (db ?st1) = captured_images_local (db st) @ new"
    and gen: "new \<noteq> [] \<longrightarrow>
             (\<exists>fs images.
                camera env ?eid (image_dir cfg) (cfg_burst_size cfg) (files st) = (fs, Inr images)
                \<and> files ?st1 = fs
                \<and> (\<forall>r \<in> set new. \<exists>img \<in> set images.
                      r\<lparr>img_id := None\<rparr> = new_image_row ?eid img))"
    by blast
  have row_of: "\<And>r. r \<in> set new \<Longrightarrow>
      \<exists>fs images img.
        camera env ?eid (image_dir cfg) (cfg_burst_size cfg) (files st) = (fs, Inr images)
        \<and> files ?st1 = fs \<and> img \<in> set images
        \<and> local_path r = local_path img \<and> sha256_hex r = sha256_hex img
        \<and> image_index r = image_index img"
  proof -
    fix r :: image_row assume r: "r \<in> set new"
    then have "new \<noteq> []" by auto
    with gen r obtain fs images img where
      c: "camera env ?eid (image_dir cfg) (cfg_burst_size cfg) (files st) = (fs, Inr images)"
      "files ?st1 = fs" "img \<in> set images"
      and e: "r\<lparr>img_id := None\<rparr> = new_image_row ?eid img"
      by blast
    from e have "local_path (r\<lparr>img_id := None\<rparr>) = local_path (new_image_row ?eid img)"
      "sha256_hex (r\<lparr>img_id := None\<rparr>) = sha256_hex (new_image_row ?eid img)"
      "image_index (r\<lparr>img_id := None\<rparr>) = image_index (new_image_row ?eid img)"
      by simp_all
    then have "local_path r = local_path img" "sha256_hex r = sha256_hex img"
      "image_index r = image_index img"
      by (simp_all add: new_image_row_def)
    with c show "\<exists>fs images img.
        camera env ?eid (image_dir cfg) (cfg_burst_size cfg) (files st) = (fs, Inr images)
        \<and> files ?st1 = fs \<and> img \<in> set images
        \<and> local_path r = local_path img \<and> sha256_hex r = sha256_hex img
        \<and> image_index r = image_index img"
      by blast
  qed
  have succ: "snd (capture_tick cfg env st) = None \<Longrightarrow>
      \<exists>fs images.
        camera env ?eid (image_dir cfg) (cfg_burst_size cfg) (files st) = (fs, Inr images)
        \<and> map image_index new = map image_index images
        \<and> map local_path new = map local_path images"
  proof -
    assume ok: "snd (capture_tick cfg env st) = None"
    from capture_tick_success [OF ok] obtain st2 fs images d' where
      s: "sensor_step env (st\<lparr>event_counter := ?eid\<rparr>) = (st2, None)"
      and c: "camera env ?eid (image_dir cfg) (cfg_burst_size cfg) (files st2) = (fs, Inr images)"
      and i: "insert_images ?eid images
              (insert_event
                 \<lparr>event_id = ?eid, ev_crate_id = edge_crate_id st2,
                  camera_name =
                    (case extra_camera_name cfg of None \<Rightarrow> ''camera_0'' | Some c \<Rightarrow> c),
                  ev_captured_at = clock env, burst_size = int (length images),
                  ev_uploaded = 0\<rparr> (db st2)) = (d', None)"
      and t: "?st1 = st2\<lparr>files := fs, db := d'\<rparr>"
      by blast
    from sensor_step_frame [OF s] have f: "files st2 = files st"
      "captured_images_local (db st2) = captured_images_local (db st)"
      by simp_all
    from insert_images_appends [OF i] obtain new' where
      n: "captured_images_local d' = captured_images_local (db st) @ new'"
      and m: "map (\<lambda>r. r\<lparr>img_id := None\<rparr>) new' = map (new_image_row ?eid) images"
      by (auto simp: insert_event_def f)
    from n t rows1 have "new' = new"
      by simp
    with m have "map (\<lambda>r. r\<lparr>img_id := None\<rparr>) new = map (new_image_row ?eid) images"
      by simp
    from new_rows_fields [OF this] c f(1)
    show "\<exists>fs images.
        camera env ?eid (image_dir cfg) (cfg_burst_size cfg) (files st) = (fs, Inr images)
        \<and> map image_index new = map image_index images
        \<and> map local_path new = map local_path images"
      by auto
  qed
  have mock: "\<forall>hexdigest mcam world.
         camera env = mock_capture_burst hexdigest mcam world \<longrightarrow>
           (\<forall>r \<in> set new.
               files ?st1 (local_path r) = Some (jpeg world (image_index r))
               \<and> sha256_hex r = hexdigest (jpeg world (image_index r)))
         \<and> (snd (capture_tick cfg env st) = None \<longrightarrow>
               map image_index new = py_range (cfg_burst_size cfg)
             \<and> snd (snd (mock_burst_traced hexdigest mcam world ?eid
                            (image_dir cfg) (py_range (cfg_burst_size cfg)) [] (files st)))
                 = map local_path new)"
  proof (intro allI impI conjI ballI)
    fix hexdigest mcam world r
    assume cam: "camera env = mock_capture_burst hexdigest mcam world" and r: "r \<in> set new"
    from row_of [OF r] obtain fs images img where
      c: "camera env ?eid (image_dir cfg) (cfg_burst_size cfg) (files st) = (fs, Inr images)"
      and x: "files ?st1 = fs" "img \<in> set images" "local_path r = local_path img"
      "sha256_hex r = sha256_hex img" "image_index r = image_index img"
      by blast
    from c cam have "mock_capture_burst hexdigest mcam world ?eid (image_dir cfg)
                       (cfg_burst_size cfg) (files st) = (fs, Inr images)"
      by simp
    from mock_capture_stored(2) [OF this] x
    show "files ?st1 (local_path r) = Some (jpeg world (image_index r))"
      and "sha256_hex r = hexdigest (jpeg world (image_index r))"
      by simp_all
  next
    fix hexdigest mcam world
    assume cam: "camera env = mock_capture_burst hexdigest mcam world"
      and ok: "snd (capture_tick cfg env st) = None"
    from succ [OF ok] obtain fs images where
      c: "camera env ?eid (image_dir cfg) (cfg_burst_size cfg) (files st) = (fs, Inr images)"
      and x: "map image_index new = map image_index images"
      "map local_path new = map local_path images"
      by blast
    from c cam have b: "mock_capture_burst hexdigest mcam world ?eid (image_dir cfg)
                       (cfg_burst_size cfg) (files st) = (fs, Inr images)"
      by simp
    from mock_capture_stored(1) [OF b] x
    show "map image_index new = py_range (cfg_burst_size cfg)"
      by simp
    from mock_capture_stored(3) [OF b] x
    show "snd (snd (mock_burst_traced hexdigest mcam world ?eid
                            (image_dir cfg) (py_range (cfg_burst_size cfg)) [] (files st)))
                 = map local_path new"
      by simp
  qed
  have rpi: "\<forall>hexdigest rcam rworld.
         camera env = rpi_capture_burst hexdigest rcam rworld \<longrightarrow>
           (\<forall>r \<in> set new.
               \<exists>data. files ?st1 (local_path r) = Some data \<and> sha256_hex r = hexdigest data)
         \<and> (snd (capture_tick cfg env st) = None \<longrightarrow>
               snd (rpi_collect_traced hexdigest rcam rworld ?eid
                      (image_dir cfg) (tool_files rworld) (py_range (cfg_burst_size cfg)))
                 = map local_path new)"
  proof (intro allI impI conjI ballI)
    fix hexdigest rcam rworld r
    assume cam: "camera env = rpi_capture_burst hexdigest rcam rworld" and r: "r \<in> set new"
    from row_of [OF r] obtain fs images img where
      c: "camera env ?eid (image_dir cfg) (cfg_burst_size cfg) (files st) = (fs, Inr images)"
      and x: "files ?st1 = fs" "img \<in> set images" "local_path r = local_path img"
      "sha256_hex r = sha256_hex img"
      by blast
    from c cam have "rpi_capture_burst hexdigest rcam rworld ?eid (image_dir cfg)
                       (cfg_burst_size cfg) (files st) = (fs, Inr images)"
      by simp
    from rpi_capture_stored(1) [OF this] x
    show "\<exists>data. files ?st1 (local_path r) = Some data \<and> sha256_hex r = hexdigest data"
      by simp
  next
    fix hexdigest rcam rworld
    assume cam: "camera env = rpi_capture_burst hexdigest rcam rworld"
      and ok: "snd (capture_tick cfg env st) = None"
    from succ [OF ok] obtain fs images where
      c: "camera env ?eid (image_dir cfg) (cfg_burst_size cfg) (files st) = (fs, Inr images)"
      and x: "map local_path new = map local_path images"
      by blast
    from c cam have b: "rpi_capture_burst hexdigest rcam rworld ?eid (image_dir cfg)
                       (cfg_burst_size cfg) (files st) = (fs, Inr images)"
      by simp
    from rpi_capture_stored(2) [OF b] x
    show "snd (rpi_collect_traced hexdigest rcam rworld ?eid
                      (image_dir cfg) (tool_files rworld) (py_range (cfg_burst_size cfg)))
                 = map local_path new"
      by simp
  qed
  have frame: "\<forall>ticks i.
               i < length (captured_images_local (db st) @ new) \<longrightarrow>
                 i < length (captured_images_local (db (run cfg ticks ?st1)))
               \<and> row_fixed (captured_images_local (db (run cfg ticks ?st1)) ! i)
                   = row_fixed ((captured_images_local (db st) @ new) ! i)"
  proof (intro allI impI)
    fix ticks i
    assume il: "i < length (captured_images_local (db st) @ new)"
    from row_fixed_run [of cfg ticks ?st1] obtain more where
      "map row_fixed (captured_images_local (db (run cfg ticks ?st1)))
         = map row_fixed (captured_images_local (db st) @ new) @ more"
      by (auto simp: rows1)
    from prefix_nth [OF this il]
    show "i < length (captured_images_local (db (run cfg ticks ?st1)))
               \<and> row_fixed (captured_images_local (db (run cfg ticks ?st1)) ! i)
                   = row_fixed ((captured_images_local (db st) @ new) ! i)" .
  qed
  from rows1 mock rpi frame show ?thesis
    by blast
qed

lemma rpi_capture_run:
  "snd (capture_tick cfg0 capture_env_rpi fresh_edge) = None
   \<and> files (fst (capture_tick cfg0 capture_env_rpi fresh_edge)) = tool_files rpi_world"
  by (simp add: capture_tick_def sensor_step_def camera_step_def capture_env_rpi_def
      fresh_edge_def startup_def empty_database_def get_max_id_def max_id_def cfg0_def
      rpi_capture_burst_def py_range_2 mock_paths rpi_world_def RpiCamera_def test_digest_def
      insert_event_def insert_image_def new_image_row_def image_key_def next_img_id_def Let_def)

lemma rpi_traced_run:
  "snd (rpi_collect_traced test_digest RpiCamera rpi_world 1 ''images'' (tool_files rpi_world)
          (py_range 2)) = [''images/00000001_000.jpg'']"
  by (simp add: py_range_2 mock_paths rpi_world_def Let_def)

lemma fresh_edge_fields:
  "captured_images_local (db fresh_edge) = []" "event_counter fresh_edge = 0"
  "files fresh_edge = Map.empty"
  by (simp_all add: fresh_edge_def startup_def empty_database_def get_max_id_def max_id_def)

theorem checksum_fixed_at_capture_witness:
  "snd (capture_tick cfg0 capture_env_mock fresh_edge) = None
   \<and> map sha256_hex (captured_images_local (db (fst (capture_tick cfg0 capture_env_mock fresh_edge))))
       = [test_digest ''aa'', test_digest ''bb'']
   \<and> files (fst (capture_tick cfg0 capture_env_mock fresh_edge))
        (local_path (captured_images_local
                       (db (fst (capture_tick cfg0 capture_env_mock fresh_edge))) ! 0))
       = Some ''aa''
   \<and> sha256_hex (captured_images_local
                   (db (run cfg0 later_ticks (fst (capture_tick cfg0 capture_env_mock fresh_edge))))
                 ! 0)
       = test_digest ''aa''
   \<and> snd (capture_tick cfg0 capture_env_rpi fresh_edge) = None
   \<and> map sha256_hex (captured_images_local (db (fst (capture_tick cfg0 capture_env_rpi fresh_edge))))
       = [test_digest ''aa'']"
proof -
  let ?m = "fst (capture_tick cfg0 capture_env_mock fresh_edge)"
  let ?p = "fst (capture_tick cfg0 capture_env_rpi fresh_edge)"
  have okm: "snd (capture_tick cfg0 capture_env_mock fresh_edge) = None"
    by (simp add: mock_capture_run)
  have okp: "snd (capture_tick cfg0 capture_env_rpi fresh_edge) = None"
    by (simp add: rpi_capture_run)
  from checksum_fixed_at_capture [of cfg0 capture_env_mock fresh_edge] okm obtain new where
    rows: "captured_images_local (db ?m) = new"
    and mock: "\<forall>hexdigest mcam world.
               camera capture_env_mock = mock_capture_burst hexdigest mcam world \<longrightarrow>
                 map image_index new = py_range (cfg_burst_size cfg0)
               \<and> (\<forall>r \<in> set new.
                     files ?m (local_path r) = Some (jpeg world (image_index r))
                     \<and> sha256_hex r = hexdigest (jpeg world (image_index r)))"
    and frame: "\<forall>ticks i. i < length new \<longrightarrow>
                 i < length (captured_images_local (db (run cfg0 ticks ?m)))
               \<and> row_fixed (captured_images_local (db (run cfg0 ticks ?m)) ! i)
                   = row_fixed (new ! i)"
    by (auto simp: fresh_edge_fields)
  have "camera capture_env_mock = mock_capture_burst test_digest MockCamera mock_world"
    by (simp add: capture_env_mock_def)
  with mock have idx: "map image_index new = [0, 1]"
    and each: "\<forall>r \<in> set new.
                 files ?m (local_path r) = Some (jpeg mock_world (image_index r))
                 \<and> sha256_hex r = test_digest (jpeg mock_world (image_index r))"
    by (simp_all add: cfg0_def py_range_2)
  from idx obtain r0 r1 where new: "new = [r0, r1]" and i0: "image_index r0 = 0"
    and i1: "image_index r1 = 1"
    by (auto simp: map_eq_Cons_conv)
  from each new i0 i1 have s0: "sha256_hex r0 = test_digest ''aa''"
    and s1: "sha256_hex r1 = test_digest ''bb''"
    and f0: "files ?m (local_path r0) = Some ''aa''"
    by (simp_all add: mock_world_def)
  from frame new have "row_fixed (captured_images_local (db (run cfg0 later_ticks ?m)) ! 0)
                         = row_fixed r0"
    by auto
  then have late: "sha256_hex (captured_images_local (db (run cfg0 later_ticks ?m)) ! 0)
                     = test_digest ''aa''"
    using s0 by (simp add: row_fixed_def)
  from checksum_fixed_at_capture [of cfg0 capture_env_rpi fresh_edge] okp obtain newp where
    rowsp: "captured_images_local (db ?p) = newp"
    and rpi: "\<forall>hexdigest rcam rworld.
               camera capture_env_rpi = rpi_capture_burst hexdigest rcam rworld \<longrightarrow>
                 (\<forall>r \<in> set newp.
                     \<exists>data. files ?p (local_path r) = Some data \<and> sha256_hex r = hexdigest data)
               \<and> snd (rpi_collect_traced hexdigest rcam rworld (event_counter fresh_edge + 1)
                         (image_dir cfg0) (tool_files rworld) (py_range (cfg_burst_size cfg0)))
                   = map local_path newp"
    by (auto simp: fresh_edge_fields)
  have "camera capture_env_rpi = rpi_capture_burst test_digest RpiCamera rpi_world"
    by (simp add: capture_env_rpi_def)
  with rpi have eachp: "\<forall>r \<in> set newp.
                     \<exists>data. files ?p (local_path r) = Some data \<and> sha256_hex r = test_digest data"
    and callsp: "map local_path newp = [''images/00000001_000.jpg'']"
    using rpi_traced_run by (simp_all add: fresh_edge_fields cfg0_def)
  from callsp obtain q where newp: "newp = [q]" and pq: "local_path q = ''images/00000001_000.jpg''"
    by (auto simp: map_eq_Cons_conv)
  from eachp newp obtain data where "files ?p (local_path q) = Some data"
    "sha256_hex q = test_digest data"
    by auto
  then have sq: "sha256_hex q = test_digest ''aa''"
    by (simp add: rpi_capture_run pq rpi_world_def)
  from okm okp rows new s0 s1 f0 late rowsp newp sq show ?thesis
    by simp
qed

section \<open>The corrupted flag\<close>




lemma store_ok_empty: "store_ok empty_database"
  by (simp add: store_ok_def empty_database_def)

























section \<open>Identifiers and failed capture ticks\<close>


























lemma new_reading_selected:
  assumes "length (filter (\<lambda>r. rd_uploaded r = 0) rows) < 10" and "rd_uploaded row = 0"
  shows "row \<in> set (take (nat 10) (filter (\<lambda>r. rd_uploaded r = 0) (rows @ [row])))"
  using assms by simp













end
